theory Spec2Isabelle
  imports Main "HOL-Library.Word"
begin

section \<open>JavaScript values of the runtime\<close>

text \<open>
  A JavaScript string is a sequence of UTF-16 code units. String literals of the source
  are ASCII and are written \<open>js ''...''\<close>.
\<close>

type_synonym jsstring = "16 word list"

definition js :: "string \<Rightarrow> jsstring" where
  "js s = map of_char s"

text \<open>
  Every number that flows through the client is an integer (a page size checked by the
  tool layer, an HTTP status, the result of \<open>parseInt\<close>) or \<open>NaN\<close>; other doubles
  are not represented, and neither is the sign of zero. Integers are printed in decimal,
  as the runtime prints every integer below \<open>10^21\<close>.
\<close>

datatype jsnumber = NaN | Integer int

datatype jsval =
    Undefined
  | Null
  | Bool bool
  | Num jsnumber
  | Str jsstring
  | Arr "jsval list"
  | Obj "(jsstring \<times> jsval) list"

text \<open>Truthiness, as used by \<open>!!v\<close>, \<open>a || b\<close> and \<open>v ? a : b\<close>.\<close>

fun truthy :: "jsval \<Rightarrow> bool" where
  "truthy Undefined = False"
| "truthy Null = False"
| "truthy (Bool b) = b"
| "truthy (Num NaN) = False"
| "truthy (Num (Integer n)) = (n \<noteq> 0)"
| "truthy (Str s) = (s \<noteq> [])"
| "truthy (Arr vs) = True"
| "truthy (Obj kvs) = True"

text \<open>An optional string (\<open>string | undefined\<close>, or \<open>string | null\<close>) is truthy when it
  is present and not empty.\<close>

definition truthy_str :: "jsstring option \<Rightarrow> bool" where
  "truthy_str s = (case s of None \<Rightarrow> False | Some t \<Rightarrow> t \<noteq> [])"

fun decimal :: "nat \<Rightarrow> jsstring" where
  "decimal n =
     (if n < 10 then [of_nat (48 + n)]
      else decimal (n div 10) @ [of_nat (48 + n mod 10)])"

declare decimal.simps [simp del]

fun join :: "jsstring \<Rightarrow> jsstring list \<Rightarrow> jsstring" where
  "join sep [] = []"
| "join sep [x] = x"
| "join sep (x # y # ys) = x @ sep @ join sep (y # ys)"

text \<open>\<open>String(v)\<close>: an array is its elements joined by commas, with \<open>null\<close> and
  \<open>undefined\<close> elements printed as the empty string.\<close>

fun String :: "jsval \<Rightarrow> jsstring" where
  "String Undefined = js ''undefined''"
| "String Null = js ''null''"
| "String (Bool b) = (if b then js ''true'' else js ''false'')"
| "String (Num NaN) = js ''NaN''"
| "String (Num (Integer n)) =
     (if n < 0 then js ''-'' @ decimal (nat (- n)) else decimal (nat n))"
| "String (Str s) = s"
| "String (Arr vs) =
     join (js '','')
       (map (\<lambda>v. if v = Undefined \<or> v = Null then [] else String v) vs)"
| "String (Obj kvs) = js ''[object Object]''"

text \<open>
  Modelled from the spec: the error classes of \<open>utils/errors.ts\<close>, which the client
  imports and throws: \<open>AuthenticationError\<close> (message), \<open>RateLimitError\<close>
  (message and the retry-after seconds it carries) and \<open>CodaApiError\<close> (message and
  HTTP status). The three are distinct kinds. \<open>Error\<close>, \<open>TypeError\<close>,
  \<open>SyntaxError\<close> and \<open>URIError\<close> are the runtime's own.
\<close>

datatype error =
    AuthenticationError jsstring
  | RateLimitError jsstring jsnumber
  | CodaApiError jsval nat
  | Error jsstring
  | TypeError jsstring
  | SyntaxError jsstring
  | URIError jsstring

text \<open>
  Reading a property \<open>v.k\<close>. Reading from \<open>undefined\<close> or \<open>null\<close> throws a TypeError
  (the message is the engine's); an object, which holds each key once when it was parsed
  from JSON, yields the value stored under the key or \<open>undefined\<close>; the names the client reads (\<open>items\<close>, \<open>nextPageToken\<close>,
  \<open>nextPageLink\<close>, \<open>message\<close>, \<open>error\<close>, \<open>name\<close>) are not properties of
  strings, numbers, booleans or arrays, so these yield \<open>undefined\<close>.
\<close>

definition apostrophe :: jsstring where
  "apostrophe = [0x27]"

definition field :: "(jsstring \<times> jsval) list \<Rightarrow> jsstring \<Rightarrow> jsval" where
  "field kvs k = (case map_of kvs k of None \<Rightarrow> Undefined | Some v \<Rightarrow> v)"

fun getprop :: "jsval \<Rightarrow> jsstring \<Rightarrow> error + jsval" where
  "getprop Undefined k =
     Inl (TypeError (js ''Cannot read properties of undefined (reading ''
                     @ apostrophe @ k @ apostrophe @ js '')''))"
| "getprop Null k =
     Inl (TypeError (js ''Cannot read properties of null (reading ''
                     @ apostrophe @ k @ apostrophe @ js '')''))"
| "getprop (Obj kvs) k = Inr (field kvs k)"
| "getprop v k = Inr Undefined"

section \<open>Strings on the wire\<close>

subsection \<open>Surrogates and UTF-8\<close>

definition is_high :: "16 word \<Rightarrow> bool" where
  "is_high c = (0xD800 \<le> c \<and> c \<le> 0xDBFF)"

definition is_low :: "16 word \<Rightarrow> bool" where
  "is_low c = (0xDC00 \<le> c \<and> c \<le> 0xDFFF)"

definition pair_cp :: "16 word \<Rightarrow> 16 word \<Rightarrow> nat" where
  "pair_cp c d = (unat c - 0xD800) * 0x400 + (unat d - 0xDC00) + 0x10000"

text \<open>A string is well formed when every surrogate is half of a pair.\<close>

fun well_formed :: "jsstring \<Rightarrow> bool" where
  "well_formed [] = True"
| "well_formed (c # cs) =
     (if is_high c then
        (case cs of [] \<Rightarrow> False | d # ds \<Rightarrow> is_low d \<and> well_formed ds)
      else \<not> is_low c \<and> well_formed cs)"

definition utf8 :: "nat \<Rightarrow> nat list" where
  "utf8 v =
     (if v < 0x80 then [v]
      else if v < 0x800 then [0xC0 + v div 64, 0x80 + v mod 64]
      else if v < 0x10000 then
        [0xE0 + v div 4096, 0x80 + (v div 64) mod 64, 0x80 + v mod 64]
      else
        [0xF0 + v div 262144, 0x80 + (v div 4096) mod 64,
         0x80 + (v div 64) mod 64, 0x80 + v mod 64])"

definition upper_hex :: jsstring where
  "upper_hex = js ''0123456789ABCDEF''"

definition hex_digit :: "nat \<Rightarrow> 16 word" where
  "hex_digit n = upper_hex ! (n mod 16)"

text \<open>An octet as \<open>%XX\<close>, two upper-case hexadecimal digits.\<close>

definition pct :: "nat \<Rightarrow> jsstring" where
  "pct b = [of_char CHR ''%'', hex_digit (b div 16), hex_digit b]"

subsection \<open>\<open>encodeURIComponent\<close>\<close>

definition uriUnescaped :: jsstring where
  "uriUnescaped =
     js ''ABCDEFGHIJKLMNOPQRSTUVWXYZabcdefghijklmnopqrstuvwxyz0123456789-_.!~*'()''"

definition uri_malformed :: error where
  "uri_malformed = URIError (js ''URI malformed'')"

definition after :: "jsstring \<Rightarrow> error + jsstring \<Rightarrow> error + jsstring" where
  "after p r = (case r of Inl e \<Rightarrow> Inl e | Inr s \<Rightarrow> Inr (p @ s))"

text \<open>
  Code units of the unescaped set are copied; any other code point is written as the
  escaped octets of its UTF-8 form; a surrogate that is not half of a pair throws.
\<close>

fun encodeURIComponent :: "jsstring \<Rightarrow> error + jsstring" where
  "encodeURIComponent [] = Inr []"
| "encodeURIComponent (c # cs) =
     (if c \<in> set uriUnescaped then after [c] (encodeURIComponent cs)
      else if is_low c then Inl uri_malformed
      else if \<not> is_high c then
        after (concat (map pct (utf8 (unat c)))) (encodeURIComponent cs)
      else
        (case cs of
           [] \<Rightarrow> Inl uri_malformed
         | d # ds \<Rightarrow>
             if is_low d then
               after (concat (map pct (utf8 (pair_cp c d)))) (encodeURIComponent ds)
             else Inl uri_malformed))"

text \<open>The code units \<open>encodeURIComponent\<close> can write.\<close>

definition safe_units :: "16 word set" where
  "safe_units = set uriUnescaped \<union> {of_char CHR ''%''} \<union> set upper_hex"

subsection \<open>\<open>URLSearchParams\<close>\<close>

text \<open>
  Names and values handed to \<open>URLSearchParams\<close> are converted to scalar value strings:
  a surrogate that is not half of a pair becomes U+FFFD.
\<close>

fun usv :: "jsstring \<Rightarrow> jsstring" where
  "usv [] = []"
| "usv (c # cs) =
     (if is_high c then
        (case cs of
           [] \<Rightarrow> [0xFFFD]
         | d # ds \<Rightarrow> if is_low d then c # d # usv ds else 0xFFFD # usv cs)
      else if is_low c then 0xFFFD # usv cs
      else c # usv cs)"

type_synonym URLSearchParams = "(jsstring \<times> jsstring) list"

definition usp_append :: "URLSearchParams \<Rightarrow> jsstring \<Rightarrow> jsstring \<Rightarrow> URLSearchParams" where
  "usp_append query name v = query @ [(usv name, usv v)]"

text \<open>\<open>set\<close> overwrites the first pair of that name and removes the others, or appends.\<close>

fun set_first :: "URLSearchParams \<Rightarrow> jsstring \<Rightarrow> jsstring \<Rightarrow> URLSearchParams" where
  "set_first [] name v = []"
| "set_first ((n, w) # rest) name v =
     (if n = name then (n, v) # filter (\<lambda>p. fst p \<noteq> name) rest
      else (n, w) # set_first rest name v)"

definition usp_set :: "URLSearchParams \<Rightarrow> jsstring \<Rightarrow> jsstring \<Rightarrow> URLSearchParams" where
  "usp_set query name v =
     (if usv name \<in> fst ` set query then set_first query (usv name) (usv v)
      else query @ [(usv name, usv v)])"

text \<open>The code points of a scalar value string.\<close>

fun code_points :: "jsstring \<Rightarrow> nat list" where
  "code_points [] = []"
| "code_points [c] = [unat c]"
| "code_points (c # d # ds) =
     (if is_high c \<and> is_low d then pair_cp c d # code_points ds
      else unat c # code_points (d # ds))"

definition form_safe :: jsstring where
  "form_safe =
     js ''ABCDEFGHIJKLMNOPQRSTUVWXYZabcdefghijklmnopqrstuvwxyz0123456789*-._''"

definition form_byte :: "nat \<Rightarrow> jsstring" where
  "form_byte b =
     (if b = 0x20 then js ''+''
      else if of_nat b \<in> set form_safe then [of_nat b]
      else pct b)"

definition form_encode :: "jsstring \<Rightarrow> jsstring" where
  "form_encode s = concat (map form_byte (concat (map utf8 (code_points s))))"

text \<open>\<open>toString\<close>: the \<open>application/x-www-form-urlencoded\<close> serialisation.\<close>

definition usp_toString :: "URLSearchParams \<Rightarrow> jsstring" where
  "usp_toString query =
     join (js ''&'') (map (\<lambda>(n, v). form_encode n @ js ''='' @ form_encode v) query)"

subsection \<open>\<open>parseInt(s, 10)\<close>\<close>

definition white_space :: "16 word list" where
  "white_space =
     [0x09, 0x0A, 0x0B, 0x0C, 0x0D, 0x20, 0xA0, 0x1680,
      0x2000, 0x2001, 0x2002, 0x2003, 0x2004, 0x2005, 0x2006, 0x2007, 0x2008,
      0x2009, 0x200A, 0x2028, 0x2029, 0x202F, 0x205F, 0x3000, 0xFEFF]"

definition is_digit :: "16 word \<Rightarrow> bool" where
  "is_digit c = (0x30 \<le> c \<and> c \<le> 0x39)"

definition digits_value :: "jsstring \<Rightarrow> int" where
  "digits_value ds = foldl (\<lambda>a c. 10 * a + (uint c - 48)) 0 ds"

text \<open>
  Leading white space is dropped, one sign is read, then the longest run of decimal
  digits; with no digit the result is \<open>NaN\<close>. (Above \<open>2^53\<close> the runtime rounds to a
  double; the integer is kept exact here.)
\<close>

definition parseInt10 :: "jsstring \<Rightarrow> jsnumber" where
  "parseInt10 s =
     (let S = dropWhile (\<lambda>c. c \<in> set white_space) s;
          neg = (case S of [] \<Rightarrow> False | c # cs \<Rightarrow> c = of_char CHR ''-'');
          S' = (case S of [] \<Rightarrow> []
                | c # cs \<Rightarrow> if c = of_char CHR ''-'' \<or> c = of_char CHR ''+'' then cs else S);
          Z = takeWhile is_digit S'
      in if Z = [] then NaN
         else Integer (if neg then - digits_value Z else digits_value Z))"

section \<open>Tenant credentials (\<open>types/env.ts\<close>)\<close>

record TenantCredentials =
  apiKey :: "jsstring option"
  baseUrl :: "jsstring option"

text \<open>
  A \<open>Headers\<close> object stores its names in lower case and \<open>get\<close> lower-cases the name
  it is asked for; \<open>None\<close> is the \<open>null\<close> that \<open>get\<close> returns for a missing header.
\<close>

type_synonym Headers = "jsstring \<rightharpoonup> jsstring"

definition ascii_lower :: "16 word \<Rightarrow> 16 word" where
  "ascii_lower c = (if 0x41 \<le> c \<and> c \<le> 0x5A then c + 0x20 else c)"

definition headers_get :: "Headers \<Rightarrow> jsstring \<Rightarrow> jsstring option" where
  "headers_get h name = h (map ascii_lower name)"

text \<open>The inbound request: its method, the path of its URL and its headers.\<close>

record Request =
  req_method :: jsstring
  pathname :: jsstring
  req_headers :: Headers

text \<open>\<open>v || undefined\<close> on the result of \<open>get\<close>.\<close>

definition or_undefined :: "jsstring option \<Rightarrow> jsstring option" where
  "or_undefined v = (if truthy_str v then v else None)"

definition parseTenantCredentials :: "Request \<Rightarrow> TenantCredentials" where
  "parseTenantCredentials req =
     (let headers = req_headers req in
      \<lparr>apiKey = or_undefined (headers_get headers (js ''X-Coda-API-Key'')),
       baseUrl = or_undefined (headers_get headers (js ''X-Coda-Base-URL''))\<rparr>)"

definition validateCredentials :: "TenantCredentials \<Rightarrow> error + unit" where
  "validateCredentials credentials =
     (if \<not> truthy_str (apiKey credentials) then
        Inl (Error (js ''Missing credentials. Provide X-Coda-API-Key header.''))
      else Inr ())"

section \<open>The client (\<open>client.ts\<close>)\<close>

definition API_BASE_URL :: jsstring where
  "API_BASE_URL = js ''https://coda.io/apis/v1''"

text \<open>The two private fields of \<open>CodaClientImpl\<close>; \<open>resolvedBaseUrl\<close> is its
  \<open>baseUrl\<close>.\<close>

record CodaClientImpl =
  credentials :: TenantCredentials
  resolvedBaseUrl :: jsstring

definition createCodaClient :: "TenantCredentials \<Rightarrow> CodaClientImpl" where
  "createCodaClient creds =
     \<lparr>credentials = creds,
      resolvedBaseUrl =
        (case baseUrl creds of
           None \<Rightarrow> API_BASE_URL
         | Some u \<Rightarrow> if u \<noteq> [] then u else API_BASE_URL)\<rparr>"

subsection \<open>The request helper\<close>

definition no_credentials :: error where
  "no_credentials =
     AuthenticationError (js ''No credentials provided. Include X-Coda-API-Key header.'')"

definition getAuthHeaders :: "CodaClientImpl \<Rightarrow> error + (jsstring \<rightharpoonup> jsstring)" where
  "getAuthHeaders this =
     (case apiKey (credentials this) of
        None \<Rightarrow> Inl no_credentials
      | Some k \<Rightarrow>
          if k \<noteq> [] then
            Inr [js ''Authorization'' \<mapsto> js ''Bearer '' @ k,
                 js ''Content-Type'' \<mapsto> js ''application/json'']
          else Inl no_credentials)"

text \<open>
  The options of a request (\<open>RequestInit\<close>): the method, the value whose
  \<open>JSON.stringify\<close> is the body, and extra headers.
\<close>

record RequestInit =
  init_method :: "jsstring option"
  init_body :: "jsval option"
  init_headers :: "(jsstring \<rightharpoonup> jsstring) option"

text \<open>What is handed to the runtime's \<open>fetch\<close>.\<close>

record fetch_call =
  url :: jsstring
  call_method :: "jsstring option"
  call_body :: "jsval option"
  call_headers :: "jsstring \<rightharpoonup> jsstring"

text \<open>
  The upstream response: \<open>body_json\<close> is what parsing \<open>body_text\<close> as JSON gives,
  \<open>Inl m\<close> when the parser throws a SyntaxError with message \<open>m\<close>.
\<close>

record Response =
  status :: nat
  resp_headers :: Headers
  body_text :: jsstring
  body_json :: "jsstring + jsval"

type_synonym fetch_fn = "fetch_call \<Rightarrow> error + Response"

text \<open>An asynchronous operation: the outbound calls it issued, and how it settled.\<close>

type_synonym 'a io = "fetch_call list \<times> (error + 'a)"

definition ok :: "Response \<Rightarrow> bool" where
  "ok response = (200 \<le> status response \<and> status response \<le> 299)"

definition response_json :: "Response \<Rightarrow> error + jsval" where
  "response_json response =
     (case body_json response of Inl m \<Rightarrow> Inl (SyntaxError m) | Inr v \<Rightarrow> Inr v)"

text \<open>\<open>errorJson.message || errorJson.error || message\<close> inside the \<open>try\<close>.\<close>

definition api_error_message :: "Response \<Rightarrow> jsval" where
  "api_error_message response =
     (let message = Str (js ''API error: '' @ decimal (status response)) in
      case body_json response of
        Inl _ \<Rightarrow> message
      | Inr errorJson \<Rightarrow>
          (case getprop errorJson (js ''message'') of
             Inl _ \<Rightarrow> message
           | Inr m \<Rightarrow>
               if truthy m then m
               else
                 (case getprop errorJson (js ''error'') of
                    Inl _ \<Rightarrow> message
                  | Inr e \<Rightarrow> if truthy e then e else message)))"

text \<open>The classification of the response, in the order of the source.\<close>

definition receive :: "Response \<Rightarrow> error + jsval" where
  "receive response =
     (if status response = 429 then
        (let retryAfter = headers_get (resp_headers response) (js ''Retry-After'') in
         Inl (RateLimitError (js ''Rate limit exceeded'')
                (case retryAfter of
                   None \<Rightarrow> Integer 60
                 | Some s \<Rightarrow> if s \<noteq> [] then parseInt10 s else Integer 60)))
      else if status response = 401 \<or> status response = 403 then
        Inl (AuthenticationError (js ''Authentication failed. Check your API credentials.''))
      else if \<not> ok response then
        Inl (CodaApiError (api_error_message response) (status response))
      else if status response = 202 then response_json response
      else if status response = 204 then Inr Undefined
      else response_json response)"

definition request :: "CodaClientImpl \<Rightarrow> fetch_fn \<Rightarrow> jsstring \<Rightarrow> RequestInit \<Rightarrow> jsval io" where
  "request this net endpoint options =
     (let target = resolvedBaseUrl this @ endpoint in
      case getAuthHeaders this of
        Inl e \<Rightarrow> ([], Inl e)
      | Inr auth \<Rightarrow>
          (let call =
                 \<lparr>url = target,
                  call_method = init_method options,
                  call_body = init_body options,
                  call_headers =
                    auth ++ (case init_headers options of None \<Rightarrow> Map.empty | Some h \<Rightarrow> h)\<rparr>
           in case net call of
                Inl e \<Rightarrow> ([call], Inl e)
              | Inr response \<Rightarrow> ([call], receive response)))"

subsection \<open>The query-string builder\<close>

text \<open>The parameters are the entries of the object, in property order.\<close>

type_synonym params = "(jsstring \<times> jsval) list"

definition add_param :: "URLSearchParams \<Rightarrow> jsstring \<times> jsval \<Rightarrow> URLSearchParams" where
  "add_param query kv =
     (let key = fst kv; v = snd kv in
      if v \<noteq> Undefined \<and> v \<noteq> Null then
        (case v of
           Arr vs \<Rightarrow> foldl (\<lambda>q x. usp_append q key (String x)) query vs
         | _ \<Rightarrow> usp_set query key (String v))
      else query)"

definition buildQueryString :: "params \<Rightarrow> jsstring" where
  "buildQueryString ps =
     (let query = foldl add_param [] ps;
          queryString = usp_toString query
      in if queryString \<noteq> [] then js ''?'' @ queryString else [])"

subsection \<open>Paths\<close>

text \<open>
  The endpoint of an operation is a template literal: literal text (and the query string,
  interpolated as it is) and identifiers interpolated through \<open>encodeURIComponent\<close>,
  evaluated from left to right.
\<close>

datatype piece = Lit jsstring | Enc jsstring

fun template :: "piece list \<Rightarrow> error + jsstring" where
  "template [] = Inr []"
| "template (Lit s # ps) = after s (template ps)"
| "template (Enc x # ps) =
     (case encodeURIComponent x of
        Inl e \<Rightarrow> Inl e
      | Inr s \<Rightarrow> after s (template ps))"

text \<open>The argument is evaluated first; \<open>this.request\<close> is called when it has a value.\<close>

definition send :: "CodaClientImpl \<Rightarrow> fetch_fn \<Rightarrow> piece list \<Rightarrow> RequestInit \<Rightarrow> jsval io" where
  "send this net pieces options =
     (case template pieces of
        Inl e \<Rightarrow> ([], Inl e)
      | Inr endpoint \<Rightarrow> request this net endpoint options)"

definition no_options :: RequestInit where
  "no_options = \<lparr>init_method = None, init_body = None, init_headers = None\<rparr>"

definition verb :: "string \<Rightarrow> RequestInit" where
  "verb m = \<lparr>init_method = Some (js m), init_body = None, init_headers = None\<rparr>"

definition verb_body :: "string \<Rightarrow> jsval \<Rightarrow> RequestInit" where
  "verb_body m b = \<lparr>init_method = Some (js m), init_body = Some b, init_headers = None\<rparr>"

text \<open>\<open>params || {}\<close>\<close>

definition or_empty :: "params option \<Rightarrow> params" where
  "or_empty ps = (case ps of None \<Rightarrow> [] | Some kvs \<Rightarrow> kvs)"

subsection \<open>Results\<close>

text \<open>The object every listing operation returns.\<close>

record PaginatedResponse =
  items :: jsval
  nextPageToken :: jsval
  nextPageLink :: jsval
  hasMore :: bool

definition paginated :: "jsval \<Rightarrow> error + PaginatedResponse" where
  "paginated response =
     (case getprop response (js ''items'') of
        Inl e \<Rightarrow> Inl e
      | Inr its \<Rightarrow>
          (case getprop response (js ''nextPageToken'') of
             Inl e \<Rightarrow> Inl e
           | Inr tok \<Rightarrow>
               (case getprop response (js ''nextPageLink'') of
                  Inl e \<Rightarrow> Inl e
                | Inr link \<Rightarrow>
                    Inr \<lparr>items = its, nextPageToken = tok, nextPageLink = link,
                         hasMore = truthy tok\<rparr>)))"

definition paginate :: "jsval io \<Rightarrow> PaginatedResponse io" where
  "paginate r =
     (case snd r of
        Inl e \<Rightarrow> (fst r, Inl e)
      | Inr response \<Rightarrow> (fst r, paginated response))"

text \<open>\<open>await this.request<void>(...)\<close> with nothing returned.\<close>

definition discard :: "jsval io \<Rightarrow> unit io" where
  "discard r = (case snd r of Inl e \<Rightarrow> (fst r, Inl e) | Inr _ \<Rightarrow> (fst r, Inr ()))"

subsection \<open>User / account, docs\<close>

definition whoami :: "CodaClientImpl \<Rightarrow> fetch_fn \<Rightarrow> jsval io" where
  "whoami this net = send this net [Lit (js ''/whoami'')] no_options"

definition listDocs :: "CodaClientImpl \<Rightarrow> fetch_fn \<Rightarrow> params option \<Rightarrow> PaginatedResponse io" where
  "listDocs this net ps =
     (let queryString = buildQueryString (or_empty ps) in
      paginate (send this net [Lit (js ''/docs''), Lit queryString] no_options))"

definition getDoc :: "CodaClientImpl \<Rightarrow> fetch_fn \<Rightarrow> jsstring \<Rightarrow> jsval io" where
  "getDoc this net docId = send this net [Lit (js ''/docs/''), Enc docId] no_options"

definition createDoc :: "CodaClientImpl \<Rightarrow> fetch_fn \<Rightarrow> jsval \<Rightarrow> jsval io" where
  "createDoc this net input = send this net [Lit (js ''/docs'')] (verb_body ''POST'' input)"

definition deleteDoc :: "CodaClientImpl \<Rightarrow> fetch_fn \<Rightarrow> jsstring \<Rightarrow> unit io" where
  "deleteDoc this net docId =
     discard (send this net [Lit (js ''/docs/''), Enc docId] (verb ''DELETE''))"

subsection \<open>Pages\<close>

definition listPages ::
  "CodaClientImpl \<Rightarrow> fetch_fn \<Rightarrow> jsstring \<Rightarrow> params option \<Rightarrow> PaginatedResponse io" where
  "listPages this net docId ps =
     (let queryString = buildQueryString (or_empty ps) in
      paginate (send this net
        [Lit (js ''/docs/''), Enc docId, Lit (js ''/pages''), Lit queryString] no_options))"

definition getPage :: "CodaClientImpl \<Rightarrow> fetch_fn \<Rightarrow> jsstring \<Rightarrow> jsstring \<Rightarrow> jsval io" where
  "getPage this net docId pageIdOrName =
     send this net
       [Lit (js ''/docs/''), Enc docId, Lit (js ''/pages/''), Enc pageIdOrName] no_options"

definition createPage :: "CodaClientImpl \<Rightarrow> fetch_fn \<Rightarrow> jsstring \<Rightarrow> jsval \<Rightarrow> jsval io" where
  "createPage this net docId input =
     send this net [Lit (js ''/docs/''), Enc docId, Lit (js ''/pages'')]
       (verb_body ''POST'' input)"

definition updatePage ::
  "CodaClientImpl \<Rightarrow> fetch_fn \<Rightarrow> jsstring \<Rightarrow> jsstring \<Rightarrow> jsval \<Rightarrow> jsval io" where
  "updatePage this net docId pageIdOrName input =
     send this net
       [Lit (js ''/docs/''), Enc docId, Lit (js ''/pages/''), Enc pageIdOrName]
       (verb_body ''PUT'' input)"

subsection \<open>Tables and columns\<close>

definition listTables ::
  "CodaClientImpl \<Rightarrow> fetch_fn \<Rightarrow> jsstring \<Rightarrow> params option \<Rightarrow> PaginatedResponse io" where
  "listTables this net docId ps =
     (let queryString = buildQueryString (or_empty ps) in
      paginate (send this net
        [Lit (js ''/docs/''), Enc docId, Lit (js ''/tables''), Lit queryString] no_options))"

definition getTable :: "CodaClientImpl \<Rightarrow> fetch_fn \<Rightarrow> jsstring \<Rightarrow> jsstring \<Rightarrow> jsval io" where
  "getTable this net docId tableIdOrName =
     send this net
       [Lit (js ''/docs/''), Enc docId, Lit (js ''/tables/''), Enc tableIdOrName] no_options"

definition listColumns ::
  "CodaClientImpl \<Rightarrow> fetch_fn \<Rightarrow> jsstring \<Rightarrow> jsstring \<Rightarrow> params option
     \<Rightarrow> PaginatedResponse io" where
  "listColumns this net docId tableIdOrName ps =
     (let queryString = buildQueryString (or_empty ps) in
      paginate (send this net
        [Lit (js ''/docs/''), Enc docId, Lit (js ''/tables/''), Enc tableIdOrName,
         Lit (js ''/columns''), Lit queryString] no_options))"

definition getColumn ::
  "CodaClientImpl \<Rightarrow> fetch_fn \<Rightarrow> jsstring \<Rightarrow> jsstring \<Rightarrow> jsstring \<Rightarrow> jsval io" where
  "getColumn this net docId tableIdOrName columnIdOrName =
     send this net
       [Lit (js ''/docs/''), Enc docId, Lit (js ''/tables/''), Enc tableIdOrName,
        Lit (js ''/columns/''), Enc columnIdOrName] no_options"

subsection \<open>Rows\<close>

definition listRows ::
  "CodaClientImpl \<Rightarrow> fetch_fn \<Rightarrow> jsstring \<Rightarrow> jsstring \<Rightarrow> params option
     \<Rightarrow> PaginatedResponse io" where
  "listRows this net docId tableIdOrName ps =
     (let queryString = buildQueryString (or_empty ps) in
      paginate (send this net
        [Lit (js ''/docs/''), Enc docId, Lit (js ''/tables/''), Enc tableIdOrName,
         Lit (js ''/rows''), Lit queryString] no_options))"

definition getRow ::
  "CodaClientImpl \<Rightarrow> fetch_fn \<Rightarrow> jsstring \<Rightarrow> jsstring \<Rightarrow> jsstring \<Rightarrow> bool \<Rightarrow> jsval io" where
  "getRow this net docId tableIdOrName rowIdOrName useColumnNames =
     (let queryString = (if useColumnNames then js ''?useColumnNames=true'' else []) in
      send this net
        [Lit (js ''/docs/''), Enc docId, Lit (js ''/tables/''), Enc tableIdOrName,
         Lit (js ''/rows/''), Enc rowIdOrName, Lit queryString] no_options)"

definition upsertRows ::
  "CodaClientImpl \<Rightarrow> fetch_fn \<Rightarrow> jsstring \<Rightarrow> jsstring \<Rightarrow> jsval \<Rightarrow> bool \<Rightarrow> jsval io" where
  "upsertRows this net docId tableIdOrName input disableParsing =
     (let queryString = (if disableParsing then js ''?disableParsing=true'' else []) in
      send this net
        [Lit (js ''/docs/''), Enc docId, Lit (js ''/tables/''), Enc tableIdOrName,
         Lit (js ''/rows''), Lit queryString] (verb_body ''POST'' input))"

definition updateRow ::
  "CodaClientImpl \<Rightarrow> fetch_fn \<Rightarrow> jsstring \<Rightarrow> jsstring \<Rightarrow> jsstring \<Rightarrow> jsval \<Rightarrow> bool
     \<Rightarrow> jsval io" where
  "updateRow this net docId tableIdOrName rowIdOrName input disableParsing =
     (let queryString = (if disableParsing then js ''?disableParsing=true'' else []) in
      send this net
        [Lit (js ''/docs/''), Enc docId, Lit (js ''/tables/''), Enc tableIdOrName,
         Lit (js ''/rows/''), Enc rowIdOrName, Lit queryString]
        (verb_body ''PUT'' (Obj [(js ''row'', input)])))"

definition deleteRow ::
  "CodaClientImpl \<Rightarrow> fetch_fn \<Rightarrow> jsstring \<Rightarrow> jsstring \<Rightarrow> jsstring \<Rightarrow> jsval io" where
  "deleteRow this net docId tableIdOrName rowIdOrName =
     send this net
       [Lit (js ''/docs/''), Enc docId, Lit (js ''/tables/''), Enc tableIdOrName,
        Lit (js ''/rows/''), Enc rowIdOrName] (verb ''DELETE'')"

definition deleteRows ::
  "CodaClientImpl \<Rightarrow> fetch_fn \<Rightarrow> jsstring \<Rightarrow> jsstring \<Rightarrow> jsstring list \<Rightarrow> jsval io" where
  "deleteRows this net docId tableIdOrName rowIds =
     send this net
       [Lit (js ''/docs/''), Enc docId, Lit (js ''/tables/''), Enc tableIdOrName,
        Lit (js ''/rows'')]
       (verb_body ''DELETE'' (Obj [(js ''rowIds'', Arr (map Str rowIds))]))"

definition pushButton ::
  "CodaClientImpl \<Rightarrow> fetch_fn \<Rightarrow> jsstring \<Rightarrow> jsstring \<Rightarrow> jsstring \<Rightarrow> jsstring \<Rightarrow> jsval io" where
  "pushButton this net docId tableIdOrName rowIdOrName columnIdOrName =
     send this net
       [Lit (js ''/docs/''), Enc docId, Lit (js ''/tables/''), Enc tableIdOrName,
        Lit (js ''/rows/''), Enc rowIdOrName, Lit (js ''/buttons/''), Enc columnIdOrName]
       (verb ''POST'')"

subsection \<open>Formulas, controls, automations\<close>

definition listFormulas ::
  "CodaClientImpl \<Rightarrow> fetch_fn \<Rightarrow> jsstring \<Rightarrow> params option \<Rightarrow> PaginatedResponse io" where
  "listFormulas this net docId ps =
     (let queryString = buildQueryString (or_empty ps) in
      paginate (send this net
        [Lit (js ''/docs/''), Enc docId, Lit (js ''/formulas''), Lit queryString] no_options))"

definition getFormula :: "CodaClientImpl \<Rightarrow> fetch_fn \<Rightarrow> jsstring \<Rightarrow> jsstring \<Rightarrow> jsval io" where
  "getFormula this net docId formulaIdOrName =
     send this net
       [Lit (js ''/docs/''), Enc docId, Lit (js ''/formulas/''), Enc formulaIdOrName]
       no_options"

definition listControls ::
  "CodaClientImpl \<Rightarrow> fetch_fn \<Rightarrow> jsstring \<Rightarrow> params option \<Rightarrow> PaginatedResponse io" where
  "listControls this net docId ps =
     (let queryString = buildQueryString (or_empty ps) in
      paginate (send this net
        [Lit (js ''/docs/''), Enc docId, Lit (js ''/controls''), Lit queryString] no_options))"

definition getControl :: "CodaClientImpl \<Rightarrow> fetch_fn \<Rightarrow> jsstring \<Rightarrow> jsstring \<Rightarrow> jsval io" where
  "getControl this net docId controlIdOrName =
     send this net
       [Lit (js ''/docs/''), Enc docId, Lit (js ''/controls/''), Enc controlIdOrName]
       no_options"

definition listAutomations ::
  "CodaClientImpl \<Rightarrow> fetch_fn \<Rightarrow> jsstring \<Rightarrow> params option \<Rightarrow> PaginatedResponse io" where
  "listAutomations this net docId ps =
     (let queryString = buildQueryString (or_empty ps) in
      paginate (send this net
        [Lit (js ''/docs/''), Enc docId, Lit (js ''/hooks/automation/rules''),
         Lit queryString] no_options))"

text \<open>The payload is \<open>Undefined\<close> when the caller gives none: \<open>payload || {}\<close>.\<close>

definition triggerAutomation ::
  "CodaClientImpl \<Rightarrow> fetch_fn \<Rightarrow> jsstring \<Rightarrow> jsstring \<Rightarrow> jsval \<Rightarrow> jsval io" where
  "triggerAutomation this net docId ruleId payload =
     send this net
       [Lit (js ''/docs/''), Enc docId, Lit (js ''/hooks/automation/''), Enc ruleId]
       (verb_body ''POST'' (if truthy payload then payload else Obj []))"

subsection \<open>Permissions\<close>

definition getAclMetadata :: "CodaClientImpl \<Rightarrow> fetch_fn \<Rightarrow> jsstring \<Rightarrow> jsval io" where
  "getAclMetadata this net docId =
     send this net [Lit (js ''/docs/''), Enc docId, Lit (js ''/acl/metadata'')] no_options"

definition listPermissions ::
  "CodaClientImpl \<Rightarrow> fetch_fn \<Rightarrow> jsstring \<Rightarrow> params option \<Rightarrow> PaginatedResponse io" where
  "listPermissions this net docId ps =
     (let queryString = buildQueryString (or_empty ps) in
      paginate (send this net
        [Lit (js ''/docs/''), Enc docId, Lit (js ''/acl/permissions''), Lit queryString]
        no_options))"

definition addPermission :: "CodaClientImpl \<Rightarrow> fetch_fn \<Rightarrow> jsstring \<Rightarrow> jsval \<Rightarrow> jsval io" where
  "addPermission this net docId input =
     send this net [Lit (js ''/docs/''), Enc docId, Lit (js ''/acl/permissions'')]
       (verb_body ''POST'' input)"

definition deletePermission ::
  "CodaClientImpl \<Rightarrow> fetch_fn \<Rightarrow> jsstring \<Rightarrow> jsstring \<Rightarrow> unit io" where
  "deletePermission this net docId permissionId =
     discard (send this net
       [Lit (js ''/docs/''), Enc docId, Lit (js ''/acl/permissions/''), Enc permissionId]
       (verb ''DELETE''))"

definition getAclSettings :: "CodaClientImpl \<Rightarrow> fetch_fn \<Rightarrow> jsstring \<Rightarrow> jsval io" where
  "getAclSettings this net docId =
     send this net [Lit (js ''/docs/''), Enc docId, Lit (js ''/acl/settings'')] no_options"

definition updateAclSettings ::
  "CodaClientImpl \<Rightarrow> fetch_fn \<Rightarrow> jsstring \<Rightarrow> jsval \<Rightarrow> jsval io" where
  "updateAclSettings this net docId settings =
     send this net [Lit (js ''/docs/''), Enc docId, Lit (js ''/acl/settings'')]
       (verb_body ''PATCH'' settings)"

subsection \<open>Publishing, utilities\<close>

definition listCategories :: "CodaClientImpl \<Rightarrow> fetch_fn \<Rightarrow> jsval io" where
  "listCategories this net =
     (let r = send this net [Lit (js ''/categories'')] no_options in
      case snd r of
        Inl e \<Rightarrow> (fst r, Inl e)
      | Inr response \<Rightarrow> (fst r, getprop response (js ''items'')))"

definition publishDoc :: "CodaClientImpl \<Rightarrow> fetch_fn \<Rightarrow> jsstring \<Rightarrow> jsval \<Rightarrow> unit io" where
  "publishDoc this net docId input =
     discard (send this net [Lit (js ''/docs/''), Enc docId, Lit (js ''/publish'')]
       (verb_body ''PUT'' input))"

definition unpublishDoc :: "CodaClientImpl \<Rightarrow> fetch_fn \<Rightarrow> jsstring \<Rightarrow> unit io" where
  "unpublishDoc this net docId =
     discard (send this net [Lit (js ''/docs/''), Enc docId, Lit (js ''/publish'')]
       (verb ''DELETE''))"

definition resolveBrowserLink ::
  "CodaClientImpl \<Rightarrow> fetch_fn \<Rightarrow> jsstring \<Rightarrow> bool \<Rightarrow> jsval io" where
  "resolveBrowserLink this net link degradeGracefully =
     (let queryString =
            buildQueryString
              [(js ''url'', Str link), (js ''degradeGracefully'', Bool degradeGracefully)]
      in send this net [Lit (js ''/resolveBrowserLink''), Lit queryString] no_options)"

definition getMutationStatus :: "CodaClientImpl \<Rightarrow> fetch_fn \<Rightarrow> jsstring \<Rightarrow> jsval io" where
  "getMutationStatus this net requestId =
     send this net [Lit (js ''/mutationStatus/''), Enc requestId] no_options"

subsection \<open>Connection test\<close>

text \<open>
  Modelled from the spec: \<open>error.message\<close> of the classes of \<open>utils/errors.ts\<close> is the
  message they are constructed with (for \<open>CodaApiError\<close>, converted to a string).
\<close>

fun error_message :: "error \<Rightarrow> jsstring" where
  "error_message (AuthenticationError m) = m"
| "error_message (RateLimitError m n) = m"
| "error_message (CodaApiError m st) = String m"
| "error_message (Error m) = m"
| "error_message (TypeError m) = m"
| "error_message (SyntaxError m) = m"
| "error_message (URIError m) = m"

record ConnectionResult =
  connected :: bool
  message :: jsstring

text \<open>Whatever is thrown inside the \<open>try\<close> is caught: this operation never fails.\<close>

definition testConnection :: "CodaClientImpl \<Rightarrow> fetch_fn \<Rightarrow> ConnectionResult io" where
  "testConnection this net =
     (let r = whoami this net in
      case snd r of
        Inl e \<Rightarrow> (fst r, Inr \<lparr>connected = False, message = error_message e\<rparr>)
      | Inr user \<Rightarrow>
          (case getprop user (js ''name'') of
             Inl e \<Rightarrow> (fst r, Inr \<lparr>connected = False, message = error_message e\<rparr>)
           | Inr n \<Rightarrow>
               (fst r, Inr \<lparr>connected = True,
                            message = js ''Successfully connected as '' @ String n\<rparr>)))"

subsection \<open>The interface \<open>CodaClient\<close>\<close>

text \<open>One constructor for each method of the interface, with its arguments.\<close>

datatype invocation =
    TestConnection
  | WhoAmI
  | ListDocs "params option"
  | GetDoc jsstring
  | CreateDoc jsval
  | DeleteDoc jsstring
  | ListPages jsstring "params option"
  | GetPage jsstring jsstring
  | CreatePage jsstring jsval
  | UpdatePage jsstring jsstring jsval
  | ListTables jsstring "params option"
  | GetTable jsstring jsstring
  | ListColumns jsstring jsstring "params option"
  | GetColumn jsstring jsstring jsstring
  | ListRows jsstring jsstring "params option"
  | GetRow jsstring jsstring jsstring bool
  | UpsertRows jsstring jsstring jsval bool
  | UpdateRow jsstring jsstring jsstring jsval bool
  | DeleteRow jsstring jsstring jsstring
  | DeleteRows jsstring jsstring "jsstring list"
  | PushButton jsstring jsstring jsstring jsstring
  | ListFormulas jsstring "params option"
  | GetFormula jsstring jsstring
  | ListControls jsstring "params option"
  | GetControl jsstring jsstring
  | ListAutomations jsstring "params option"
  | TriggerAutomation jsstring jsstring jsval
  | GetAclMetadata jsstring
  | ListPermissions jsstring "params option"
  | AddPermission jsstring jsval
  | DeletePermission jsstring jsstring
  | GetAclSettings jsstring
  | UpdateAclSettings jsstring jsval
  | ListCategories
  | PublishDoc jsstring jsval
  | UnpublishDoc jsstring
  | ResolveBrowserLink jsstring bool
  | GetMutationStatus jsstring

datatype outcome =
    Value jsval
  | Page PaginatedResponse
  | Void
  | Connection ConnectionResult

definition settle :: "('a \<Rightarrow> outcome) \<Rightarrow> 'a io \<Rightarrow> outcome io" where
  "settle f r = (fst r, case snd r of Inl e \<Rightarrow> Inl e | Inr v \<Rightarrow> Inr (f v))"

fun invoke :: "CodaClientImpl \<Rightarrow> fetch_fn \<Rightarrow> invocation \<Rightarrow> outcome io" where
  "invoke this net TestConnection = settle Connection (testConnection this net)"
| "invoke this net WhoAmI = settle Value (whoami this net)"
| "invoke this net (ListDocs ps) = settle Page (listDocs this net ps)"
| "invoke this net (GetDoc d) = settle Value (getDoc this net d)"
| "invoke this net (CreateDoc i) = settle Value (createDoc this net i)"
| "invoke this net (DeleteDoc d) = settle (\<lambda>_. Void) (deleteDoc this net d)"
| "invoke this net (ListPages d ps) = settle Page (listPages this net d ps)"
| "invoke this net (GetPage d p) = settle Value (getPage this net d p)"
| "invoke this net (CreatePage d i) = settle Value (createPage this net d i)"
| "invoke this net (UpdatePage d p i) = settle Value (updatePage this net d p i)"
| "invoke this net (ListTables d ps) = settle Page (listTables this net d ps)"
| "invoke this net (GetTable d t) = settle Value (getTable this net d t)"
| "invoke this net (ListColumns d t ps) = settle Page (listColumns this net d t ps)"
| "invoke this net (GetColumn d t c) = settle Value (getColumn this net d t c)"
| "invoke this net (ListRows d t ps) = settle Page (listRows this net d t ps)"
| "invoke this net (GetRow d t r u) = settle Value (getRow this net d t r u)"
| "invoke this net (UpsertRows d t i p) = settle Value (upsertRows this net d t i p)"
| "invoke this net (UpdateRow d t r i p) = settle Value (updateRow this net d t r i p)"
| "invoke this net (DeleteRow d t r) = settle Value (deleteRow this net d t r)"
| "invoke this net (DeleteRows d t rs) = settle Value (deleteRows this net d t rs)"
| "invoke this net (PushButton d t r c) = settle Value (pushButton this net d t r c)"
| "invoke this net (ListFormulas d ps) = settle Page (listFormulas this net d ps)"
| "invoke this net (GetFormula d f) = settle Value (getFormula this net d f)"
| "invoke this net (ListControls d ps) = settle Page (listControls this net d ps)"
| "invoke this net (GetControl d c) = settle Value (getControl this net d c)"
| "invoke this net (ListAutomations d ps) = settle Page (listAutomations this net d ps)"
| "invoke this net (TriggerAutomation d r p) = settle Value (triggerAutomation this net d r p)"
| "invoke this net (GetAclMetadata d) = settle Value (getAclMetadata this net d)"
| "invoke this net (ListPermissions d ps) = settle Page (listPermissions this net d ps)"
| "invoke this net (AddPermission d i) = settle Value (addPermission this net d i)"
| "invoke this net (DeletePermission d p) = settle (\<lambda>_. Void) (deletePermission this net d p)"
| "invoke this net (GetAclSettings d) = settle Value (getAclSettings this net d)"
| "invoke this net (UpdateAclSettings d s) = settle Value (updateAclSettings this net d s)"
| "invoke this net ListCategories = settle Value (listCategories this net)"
| "invoke this net (PublishDoc d i) = settle (\<lambda>_. Void) (publishDoc this net d i)"
| "invoke this net (UnpublishDoc d) = settle (\<lambda>_. Void) (unpublishDoc this net d)"
| "invoke this net (ResolveBrowserLink u g) = settle Value (resolveBrowserLink this net u g)"
| "invoke this net (GetMutationStatus r) = settle Value (getMutationStatus this net r)"

section \<open>The Worker (\<open>index.ts\<close>)\<close>

definition SERVER_NAME :: jsstring where
  "SERVER_NAME = js ''primrose-mcp-coda''"

definition SERVER_VERSION :: jsstring where
  "SERVER_VERSION = js ''1.0.0''"

text \<open>The body of a reply: \<open>JSON.stringify\<close> of a value, or a plain string.\<close>

datatype BodyInit = JsonBody jsval | TextBody jsstring

record WorkerResponse =
  wr_body :: BodyInit
  wr_status :: nat
  wr_headers :: "(jsstring \<times> jsstring) list"

text \<open>
  The handler answers by itself, or builds the stateless server, whose construction
  creates the client, and passes the request to the MCP handler of that server.
\<close>

datatype reply = Responded WorkerResponse | Served CodaClientImpl

definition tool_names :: "string list" where
  "tool_names =
        [''coda_list_docs'', ''coda_get_doc'', ''coda_create_doc'', ''coda_delete_doc'',
         ''coda_list_pages'', ''coda_get_page'', ''coda_create_page'',
         ''coda_update_page'', ''coda_list_tables'', ''coda_get_table'',
         ''coda_list_columns'', ''coda_get_column'', ''coda_list_rows'',
         ''coda_get_row'', ''coda_upsert_rows'', ''coda_update_row'',
         ''coda_delete_row'', ''coda_delete_rows'', ''coda_push_button'',
         ''coda_list_formulas'', ''coda_get_formula'', ''coda_list_controls'',
         ''coda_get_control'', ''coda_list_automations'', ''coda_trigger_automation'',
         ''coda_get_sharing_metadata'', ''coda_list_permissions'',
         ''coda_add_permission'', ''coda_delete_permission'', ''coda_get_acl_settings'',
         ''coda_update_acl_settings'', ''coda_list_categories'', ''coda_publish_doc'',
         ''coda_unpublish_doc'', ''coda_whoami'', ''coda_resolve_browser_link'',
         ''coda_get_mutation_status'', ''coda_test_connection'']"

definition server_info :: jsval where
  "server_info =
     Obj [(js ''name'', Str SERVER_NAME),
          (js ''version'', Str SERVER_VERSION),
          (js ''description'', Str (js ''Coda MCP Server - Multi-tenant API for Coda documents'')),
          (js ''endpoints'',
             Obj [(js ''mcp'', Str (js ''/mcp (POST) - Streamable HTTP MCP endpoint'')),
                  (js ''health'', Str (js ''/health - Health check''))]),
          (js ''authentication'',
             Obj [(js ''description'', Str (js ''Pass tenant credentials via request headers'')),
                  (js ''required_headers'',
                     Obj [(js ''X-Coda-API-Key'', Str (js ''Your Coda API token (Bearer token)''))]),
                  (js ''optional_headers'',
                     Obj [(js ''X-Coda-Base-URL'',
                           Str (js ''Override the default Coda API base URL''))])]),
          (js ''tools'', Arr (map (\<lambda>t. Str (js t)) tool_names))]"

definition json_headers :: "(jsstring \<times> jsstring) list" where
  "json_headers = [(js ''Content-Type'', js ''application/json'')]"

definition unauthorized :: "error \<Rightarrow> WorkerResponse" where
  "unauthorized e =
     \<lparr>wr_body =
        JsonBody (Obj [(js ''error'', Str (js ''Unauthorized'')),
                       (js ''message'', Str (error_message e)),
                       (js ''required_headers'', Arr [Str (js ''X-Coda-API-Key'')])]),
      wr_status = 401,
      wr_headers = json_headers\<rparr>"

definition createStatelessServer :: "TenantCredentials \<Rightarrow> CodaClientImpl" where
  "createStatelessServer creds = createCodaClient creds"

definition fetch :: "Request \<Rightarrow> reply" where
  "fetch req =
     (if pathname req = js ''/health'' then
        Responded
          \<lparr>wr_body = JsonBody (Obj [(js ''status'', Str (js ''ok'')),
                                    (js ''server'', Str SERVER_NAME)]),
           wr_status = 200, wr_headers = json_headers\<rparr>
      else if pathname req = js ''/mcp'' \<and> req_method req = js ''POST'' then
        (let creds = parseTenantCredentials req in
         case validateCredentials creds of
           Inl e \<Rightarrow> Responded (unauthorized e)
         | Inr _ \<Rightarrow> Served (createStatelessServer creds))
      else if pathname req = js ''/sse'' then
        Responded
          \<lparr>wr_body =
             TextBody (js ''SSE endpoint requires Durable Objects. Enable in wrangler.jsonc.''),
           wr_status = 501, wr_headers = []\<rparr>
      else
        Responded \<lparr>wr_body = JsonBody server_info, wr_status = 200, wr_headers = json_headers\<rparr>)"

section \<open>Many tenants on one instance\<close>

text \<open>
  The instance over time: clients are constructed, directly or by an inbound request,
  and live side by side; any of them may be invoked at any moment, in any order. An
  operation hands its call to the runtime before it first suspends, so the order of the
  invocations is the order of the outbound calls. \<open>outbound\<close> records every call
  together with the client that issued it.
\<close>

datatype event =
    Construct TenantCredentials
  | Inbound Request
  | Invoke nat invocation fetch_fn

record world =
  clients :: "CodaClientImpl list"
  outbound :: "(nat \<times> fetch_call) list"

fun step :: "world \<Rightarrow> event \<Rightarrow> world" where
  "step w (Construct creds) = w\<lparr>clients := clients w @ [createCodaClient creds]\<rparr>"
| "step w (Inbound req) =
     (case fetch req of
        Responded _ \<Rightarrow> w
      | Served c \<Rightarrow> w\<lparr>clients := clients w @ [c]\<rparr>)"
| "step w (Invoke a op net) =
     (if a < length (clients w) then
        w\<lparr>outbound := outbound w @ map (Pair a) (fst (invoke (clients w ! a) net op))\<rparr>
      else w)"

definition run :: "event list \<Rightarrow> world" where
  "run evs = foldl step \<lparr>clients = [], outbound = []\<rparr> evs"

text \<open>The credentials each client was constructed with, in the order of construction.\<close>

fun supplied :: "event list \<Rightarrow> TenantCredentials list" where
  "supplied [] = []"
| "supplied (Construct creds # evs) = creds # supplied evs"
| "supplied (Inbound req # evs) =
     (if pathname req = js ''/mcp'' \<and> req_method req = js ''POST''
         \<and> validateCredentials (parseTenantCredentials req) = Inr ()
      then parseTenantCredentials req # supplied evs
      else supplied evs)"
| "supplied (Invoke a op net # evs) = supplied evs"

section \<open>Kinds of failure\<close>

text \<open>\<open>e instanceof AuthenticationError\<close> and \<open>e instanceof RateLimitError\<close>.\<close>

fun instanceof_AuthenticationError :: "error \<Rightarrow> bool" where
  "instanceof_AuthenticationError (AuthenticationError m) = True"
| "instanceof_AuthenticationError e = False"

fun instanceof_RateLimitError :: "error \<Rightarrow> bool" where
  "instanceof_RateLimitError (RateLimitError m n) = True"
| "instanceof_RateLimitError e = False"

definition fails_with :: "(error \<Rightarrow> bool) \<Rightarrow> error + 'a \<Rightarrow> bool" where
  "fails_with kind r = (case r of Inl e \<Rightarrow> kind e | Inr _ \<Rightarrow> False)"

definition missing_credentials :: error where
  "missing_credentials = Error (js ''Missing credentials. Provide X-Coda-API-Key header.'')"

section \<open>The contract in the words of the specification\<close>

subsection \<open>Query strings\<close>

text \<open>
  The parameter set of a mapping: a key whose value is absent or null gives nothing, a
  key whose value is a sequence gives one pair for each element, any other value is
  stringified.
\<close>

fun spec_pairs_of :: "jsstring \<times> jsval \<Rightarrow> (jsstring \<times> jsstring) list" where
  "spec_pairs_of (k, Undefined) = []"
| "spec_pairs_of (k, Null) = []"
| "spec_pairs_of (k, Arr vs) = map (\<lambda>x. (k, String x)) vs"
| "spec_pairs_of (k, v) = [(k, String v)]"

definition spec_pairs :: "params \<Rightarrow> (jsstring \<times> jsstring) list" where
  "spec_pairs ps = concat (map spec_pairs_of ps)"

text \<open>The pairs as \<open>URLSearchParams\<close> stores them.\<close>

definition stored :: "(jsstring \<times> jsstring) list \<Rightarrow> URLSearchParams" where
  "stored kvs = map (\<lambda>kv. (usv (fst kv), usv (snd kv))) kvs"

subsection \<open>Resource paths\<close>

text \<open>
  The path of each operation, segment by segment: a fixed name, or an identifier supplied
  by the caller.
\<close>

datatype slot = Name string | Ident jsstring

fun route :: "invocation \<Rightarrow> slot list" where
  "route TestConnection = [Name ''whoami'']"
| "route WhoAmI = [Name ''whoami'']"
| "route (ListDocs ps) = [Name ''docs'']"
| "route (GetDoc d) = [Name ''docs'', Ident d]"
| "route (CreateDoc i) = [Name ''docs'']"
| "route (DeleteDoc d) = [Name ''docs'', Ident d]"
| "route (ListPages d ps) = [Name ''docs'', Ident d, Name ''pages'']"
| "route (GetPage d p) = [Name ''docs'', Ident d, Name ''pages'', Ident p]"
| "route (CreatePage d i) = [Name ''docs'', Ident d, Name ''pages'']"
| "route (UpdatePage d p i) = [Name ''docs'', Ident d, Name ''pages'', Ident p]"
| "route (ListTables d ps) = [Name ''docs'', Ident d, Name ''tables'']"
| "route (GetTable d t) = [Name ''docs'', Ident d, Name ''tables'', Ident t]"
| "route (ListColumns d t ps) =
     [Name ''docs'', Ident d, Name ''tables'', Ident t, Name ''columns'']"
| "route (GetColumn d t c) =
     [Name ''docs'', Ident d, Name ''tables'', Ident t, Name ''columns'', Ident c]"
| "route (ListRows d t ps) = [Name ''docs'', Ident d, Name ''tables'', Ident t, Name ''rows'']"
| "route (GetRow d t r u) =
     [Name ''docs'', Ident d, Name ''tables'', Ident t, Name ''rows'', Ident r]"
| "route (UpsertRows d t i p) =
     [Name ''docs'', Ident d, Name ''tables'', Ident t, Name ''rows'']"
| "route (UpdateRow d t r i p) =
     [Name ''docs'', Ident d, Name ''tables'', Ident t, Name ''rows'', Ident r]"
| "route (DeleteRow d t r) =
     [Name ''docs'', Ident d, Name ''tables'', Ident t, Name ''rows'', Ident r]"
| "route (DeleteRows d t rs) =
     [Name ''docs'', Ident d, Name ''tables'', Ident t, Name ''rows'']"
| "route (PushButton d t r c) =
     [Name ''docs'', Ident d, Name ''tables'', Ident t, Name ''rows'', Ident r,
      Name ''buttons'', Ident c]"
| "route (ListFormulas d ps) = [Name ''docs'', Ident d, Name ''formulas'']"
| "route (GetFormula d f) = [Name ''docs'', Ident d, Name ''formulas'', Ident f]"
| "route (ListControls d ps) = [Name ''docs'', Ident d, Name ''controls'']"
| "route (GetControl d c) = [Name ''docs'', Ident d, Name ''controls'', Ident c]"
| "route (ListAutomations d ps) =
     [Name ''docs'', Ident d, Name ''hooks'', Name ''automation'', Name ''rules'']"
| "route (TriggerAutomation d r p) =
     [Name ''docs'', Ident d, Name ''hooks'', Name ''automation'', Ident r]"
| "route (GetAclMetadata d) = [Name ''docs'', Ident d, Name ''acl'', Name ''metadata'']"
| "route (ListPermissions d ps) = [Name ''docs'', Ident d, Name ''acl'', Name ''permissions'']"
| "route (AddPermission d i) = [Name ''docs'', Ident d, Name ''acl'', Name ''permissions'']"
| "route (DeletePermission d p) =
     [Name ''docs'', Ident d, Name ''acl'', Name ''permissions'', Ident p]"
| "route (GetAclSettings d) = [Name ''docs'', Ident d, Name ''acl'', Name ''settings'']"
| "route (UpdateAclSettings d st) = [Name ''docs'', Ident d, Name ''acl'', Name ''settings'']"
| "route ListCategories = [Name ''categories'']"
| "route (PublishDoc d i) = [Name ''docs'', Ident d, Name ''publish'']"
| "route (UnpublishDoc d) = [Name ''docs'', Ident d, Name ''publish'']"
| "route (ResolveBrowserLink u g) = [Name ''resolveBrowserLink'']"
| "route (GetMutationStatus r) = [Name ''mutationStatus'', Ident r]"

text \<open>The identifiers an invocation interpolates into its path.\<close>

fun identifiers_of :: "slot list \<Rightarrow> jsstring list" where
  "identifiers_of [] = []"
| "identifiers_of (Name n # sl) = identifiers_of sl"
| "identifiers_of (Ident x # sl) = x # identifiers_of sl"

definition identifiers :: "invocation \<Rightarrow> jsstring list" where
  "identifiers op = identifiers_of (route op)"

text \<open>The encoded form of an identifier (empty where encoding throws).\<close>

definition encoded :: "jsstring \<Rightarrow> jsstring" where
  "encoded x = (case encodeURIComponent x of Inl _ \<Rightarrow> [] | Inr e \<Rightarrow> e)"

fun segment :: "slot \<Rightarrow> jsstring" where
  "segment (Name n) = js n"
| "segment (Ident x) = encoded x"

text \<open>A template whose identifiers all encode evaluates to its pieces, rendered in order.\<close>

fun render :: "piece \<Rightarrow> jsstring" where
  "render (Lit s) = s"
| "render (Enc x) = encoded x"

fun interpolated :: "piece list \<Rightarrow> jsstring list" where
  "interpolated [] = []"
| "interpolated (Lit s # ps) = interpolated ps"
| "interpolated (Enc x # ps) = x # interpolated ps"

text \<open>The segments of the path of an endpoint: the part before \<open>?\<close>, split at \<open>/\<close>.\<close>

fun push :: "'a \<Rightarrow> 'a list list \<Rightarrow> 'a list list" where
  "push c [] = [[c]]"
| "push c (s # ss) = (c # s) # ss"

fun split_on :: "'a \<Rightarrow> 'a list \<Rightarrow> 'a list list" where
  "split_on d [] = [[]]"
| "split_on d (c # cs) = (if c = d then [] # split_on d cs else push c (split_on d cs))"

definition path_of :: "jsstring \<Rightarrow> jsstring" where
  "path_of endpoint = takeWhile (\<lambda>c. c \<noteq> of_char CHR ''?'') endpoint"

definition path_segments :: "jsstring \<Rightarrow> jsstring list" where
  "path_segments endpoint = split_on (of_char CHR ''/'') (path_of endpoint)"

subsection \<open>Listing operations\<close>

fun is_listing :: "invocation \<Rightarrow> bool" where
  "is_listing (ListDocs ps) = True"
| "is_listing (ListPages d ps) = True"
| "is_listing (ListTables d ps) = True"
| "is_listing (ListColumns d t ps) = True"
| "is_listing (ListRows d t ps) = True"
| "is_listing (ListFormulas d ps) = True"
| "is_listing (ListControls d ps) = True"
| "is_listing (ListAutomations d ps) = True"
| "is_listing (ListPermissions d ps) = True"
| "is_listing op = False"

text \<open>
  The payload is declared with \<open>nextPageToken?: string\<close>: the token is a string, or
  missing (in JSON, possibly \<open>null\<close>).
\<close>

definition textual_token :: "(jsstring \<times> jsval) list \<Rightarrow> bool" where
  "textual_token kvs =
     (case map_of kvs (js ''nextPageToken'') of
        None \<Rightarrow> True
      | Some (Str t) \<Rightarrow> True
      | Some Null \<Rightarrow> True
      | Some v \<Rightarrow> False)"

text \<open>The token of a payload, read as \<open>hasMore\<close>: present and not empty.\<close>

definition has_token :: "(jsstring \<times> jsval) list \<Rightarrow> bool" where
  "has_token kvs =
     (case map_of kvs (js ''nextPageToken'') of
        Some (Str t) \<Rightarrow> t \<noteq> []
      | _ \<Rightarrow> False)"

section \<open>Properties of the credential resolver and of the inbound boundary\<close>

lemma apiKey_parse_nonempty: "apiKey (parseTenantCredentials req) \<noteq> Some []"
  by (simp add: parseTenantCredentials_def or_undefined_def truthy_str_def Let_def
      split: option.splits)

lemma validate_absent:
  "headers_get (req_headers req) (js ''X-Coda-API-Key'') = None \<or>
   headers_get (req_headers req) (js ''X-Coda-API-Key'') = Some [] \<Longrightarrow>
   validateCredentials (parseTenantCredentials req) = Inl missing_credentials"
  by (auto simp: validateCredentials_def parseTenantCredentials_def or_undefined_def
      truthy_str_def missing_credentials_def Let_def)

lemma mcp_not_health: "js ''/mcp'' \<noteq> js ''/health''"
  by (simp add: js_def)

text \<open>
  C6, as the claim states it, fails: with no \<open>apiKey\<close> the validation throws a plain
  \<open>Error\<close>, which is not of the \<open>AuthenticationError\<close> kind.
\<close>

theorem validateCredentials_not_authentication_kind:
  "\<not> fails_with instanceof_AuthenticationError
       (validateCredentials \<lparr>apiKey = None, baseUrl = None\<rparr>)"
  by (simp add: validateCredentials_def truthy_str_def fails_with_def)

text \<open>
  C6, amended: the validation fails with a plain \<open>Error\<close> carrying the message
  ``Missing credentials. Provide X-Coda-API-Key header.'' (never with an
  \<open>AuthenticationError\<close>) exactly when the \<open>apiKey\<close> is absent or empty; for
  credentials resolved from a request, exactly when it is absent; otherwise it returns
  without effect.
\<close>

theorem validateCredentials_fails_iff_no_key:
  "validateCredentials creds =
     (if apiKey creds = None \<or> apiKey creds = Some [] then Inl missing_credentials
      else Inr ())
   \<and> validateCredentials (parseTenantCredentials req) =
     (if apiKey (parseTenantCredentials req) = None then Inl missing_credentials
      else Inr ())
   \<and> \<not> fails_with instanceof_AuthenticationError (validateCredentials creds)"
  using apiKey_parse_nonempty[of req]
  by (auto simp: validateCredentials_def truthy_str_def missing_credentials_def
      fails_with_def split: option.splits)

theorem validateCredentials_fails_iff_no_key_witness:
  "validateCredentials \<lparr>apiKey = Some (js ''k''), baseUrl = None\<rparr> = Inr ()
   \<and> validateCredentials \<lparr>apiKey = Some [], baseUrl = None\<rparr> = Inl missing_credentials"
  using validateCredentials_fails_iff_no_key
          [of "\<lparr>apiKey = Some (js ''k''), baseUrl = None\<rparr>"]
        validateCredentials_fails_iff_no_key
          [of "\<lparr>apiKey = Some [], baseUrl = None\<rparr>"]
  by (simp add: js_def)

text \<open>
  C7: a POST to \<open>/mcp\<close> whose headers lack \<open>X-Coda-API-Key\<close> is answered with status
  401 and a JSON body whose \<open>required_headers\<close> lists \<open>X-Coda-API-Key\<close>; the handler
  answers by itself, so no server and no client is constructed for the request.
\<close>

theorem missing_key_header_yields_401:
  assumes "pathname req = js ''/mcp''" and "req_method req = js ''POST''"
    and "headers_get (req_headers req) (js ''X-Coda-API-Key'') = None"
  shows "fetch req =
      Responded
        \<lparr>wr_body =
           JsonBody (Obj [(js ''error'', Str (js ''Unauthorized'')),
                          (js ''message'',
                           Str (js ''Missing credentials. Provide X-Coda-API-Key header.'')),
                          (js ''required_headers'', Arr [Str (js ''X-Coda-API-Key'')])]),
         wr_status = 401,
         wr_headers = [(js ''Content-Type'', js ''application/json'')]\<rparr>
    \<and> (\<forall>c. fetch req \<noteq> Served c)"
  using assms validate_absent[of req] mcp_not_health
  by (simp add: fetch_def unauthorized_def json_headers_def missing_credentials_def)

theorem missing_key_header_yields_401_witness:
  "pathname \<lparr>req_method = js ''POST'', pathname = js ''/mcp'', req_headers = Map.empty\<rparr>
     = js ''/mcp''
   \<and> headers_get
         (req_headers
            \<lparr>req_method = js ''POST'', pathname = js ''/mcp'', req_headers = Map.empty\<rparr>)
         (js ''X-Coda-API-Key'') = None
   \<and> fetch \<lparr>req_method = js ''POST'', pathname = js ''/mcp'', req_headers = Map.empty\<rparr> =
      Responded
        \<lparr>wr_body =
           JsonBody (Obj [(js ''error'', Str (js ''Unauthorized'')),
                          (js ''message'',
                           Str (js ''Missing credentials. Provide X-Coda-API-Key header.'')),
                          (js ''required_headers'', Arr [Str (js ''X-Coda-API-Key'')])]),
         wr_status = 401,
         wr_headers = [(js ''Content-Type'', js ''application/json'')]\<rparr>"
  using missing_key_header_yields_401
          [of "\<lparr>req_method = js ''POST'', pathname = js ''/mcp'', req_headers = Map.empty\<rparr>"]
  by (simp add: headers_get_def)

lemma header_names_differ:
  "map ascii_lower (js ''X-Coda-Base-URL'') \<noteq> map ascii_lower (js ''X-Coda-API-Key'')"
  by (simp add: js_def ascii_lower_def)

lemma parse_without_empty_key:
  assumes "headers_get (req_headers req) (js ''X-Coda-API-Key'') = Some []"
  shows "parseTenantCredentials
           (req\<lparr>req_headers := (req_headers req)(map ascii_lower (js ''X-Coda-API-Key'') := None)\<rparr>)
         = parseTenantCredentials req"
  using assms header_names_differ
  by (simp add: parseTenantCredentials_def headers_get_def or_undefined_def truthy_str_def Let_def)

lemma createCodaClient_base_nonempty: "resolvedBaseUrl (createCodaClient creds) \<noteq> []"
  by (simp add: createCodaClient_def API_BASE_URL_def js_def split: option.splits)

lemma credentials_create [simp]: "credentials (createCodaClient creds) = creds"
  by (simp add: createCodaClient_def)

text \<open>
  C10: an \<open>X-Coda-API-Key\<close> header that is present but empty resolves to no \<open>apiKey\<close>,
  and the request is answered exactly as the same request without the header (on POST
  \<open>/mcp\<close>: the 401 reply); an empty \<open>X-Coda-Base-URL\<close> header resolves to no
  \<open>baseUrl\<close>; a client constructed with an empty or missing \<open>baseUrl\<close> uses the fixed
  default, and the base URL of a client is never empty.
\<close>

theorem empty_header_values_are_absent:
  "(headers_get (req_headers req) (js ''X-Coda-API-Key'') = Some [] \<longrightarrow>
      apiKey (parseTenantCredentials req) = None
      \<and> fetch req =
          fetch (req\<lparr>req_headers :=
                       (req_headers req)(map ascii_lower (js ''X-Coda-API-Key'') := None)\<rparr>)
      \<and> (pathname req = js ''/mcp'' \<and> req_method req = js ''POST'' \<longrightarrow>
           fetch req = Responded (unauthorized missing_credentials)
           \<and> wr_status (unauthorized missing_credentials) = 401))
   \<and> (headers_get (req_headers req) (js ''X-Coda-Base-URL'') = Some [] \<longrightarrow>
        baseUrl (parseTenantCredentials req) = None
        \<and> (\<forall>c. fetch req = Served c \<longrightarrow> resolvedBaseUrl c = API_BASE_URL))
   \<and> (baseUrl creds = None \<or> baseUrl creds = Some [] \<longrightarrow>
        resolvedBaseUrl (createCodaClient creds) = API_BASE_URL)
   \<and> resolvedBaseUrl (createCodaClient creds) \<noteq> []"
proof (intro conjI impI allI)
  assume k: "headers_get (req_headers req) (js ''X-Coda-API-Key'') = Some []"
  show "apiKey (parseTenantCredentials req) = None"
    using k by (simp add: parseTenantCredentials_def or_undefined_def truthy_str_def Let_def)
  show "fetch req =
          fetch (req\<lparr>req_headers :=
                       (req_headers req)(map ascii_lower (js ''X-Coda-API-Key'') := None)\<rparr>)"
    using parse_without_empty_key[OF k] by (simp add: fetch_def)
  {
    assume "pathname req = js ''/mcp'' \<and> req_method req = js ''POST''"
    then show "fetch req = Responded (unauthorized missing_credentials)"
      using validate_absent[of req] k mcp_not_health by (simp add: fetch_def)
  }
  show "wr_status (unauthorized missing_credentials) = 401"
    by (simp add: unauthorized_def)
next
  assume b: "headers_get (req_headers req) (js ''X-Coda-Base-URL'') = Some []"
  show "baseUrl (parseTenantCredentials req) = None"
    using b by (simp add: parseTenantCredentials_def or_undefined_def truthy_str_def Let_def)
  then show "resolvedBaseUrl c = API_BASE_URL" if "fetch req = Served c" for c
    using that
    by (auto simp: fetch_def createStatelessServer_def createCodaClient_def Let_def
        split: if_splits sum.splits)
next
  assume "baseUrl creds = None \<or> baseUrl creds = Some []"
  then show "resolvedBaseUrl (createCodaClient creds) = API_BASE_URL"
    by (auto simp: createCodaClient_def)
next
  show "resolvedBaseUrl (createCodaClient creds) \<noteq> []"
    by (rule createCodaClient_base_nonempty)
qed

theorem empty_header_values_are_absent_witness:
  "headers_get
     (req_headers \<lparr>req_method = js ''POST'', pathname = js ''/mcp'',
        req_headers = [js ''x-coda-api-key'' \<mapsto> [], js ''x-coda-base-url'' \<mapsto> []]\<rparr>)
     (js ''X-Coda-API-Key'') = Some []
   \<and> apiKey (parseTenantCredentials
        \<lparr>req_method = js ''POST'', pathname = js ''/mcp'',
         req_headers = [js ''x-coda-api-key'' \<mapsto> [], js ''x-coda-base-url'' \<mapsto> []]\<rparr>) = None
   \<and> fetch \<lparr>req_method = js ''POST'', pathname = js ''/mcp'',
         req_headers = [js ''x-coda-api-key'' \<mapsto> [], js ''x-coda-base-url'' \<mapsto> []]\<rparr>
       = Responded (unauthorized missing_credentials)
   \<and> resolvedBaseUrl (createCodaClient \<lparr>apiKey = Some (js ''k''), baseUrl = Some []\<rparr>)
       = API_BASE_URL"
proof -
  let ?req = "\<lparr>req_method = js ''POST'', pathname = js ''/mcp'',
        req_headers = [js ''x-coda-api-key'' \<mapsto> [], js ''x-coda-base-url'' \<mapsto> []]\<rparr>"
  have k: "headers_get (req_headers ?req) (js ''X-Coda-API-Key'') = Some []"
    by (simp add: headers_get_def js_def ascii_lower_def)
  note c = empty_header_values_are_absent[of ?req "\<lparr>apiKey = Some (js ''k''), baseUrl = Some []\<rparr>"]
  from c k have a: "apiKey (parseTenantCredentials ?req) = None" by blast
  have p: "pathname ?req = js ''/mcp'' \<and> req_method ?req = js ''POST''" by simp
  from c k p have f: "fetch ?req = Responded (unauthorized missing_credentials)" by blast
  have "baseUrl \<lparr>apiKey = Some (js ''k''), baseUrl = Some []\<rparr> = Some []" by simp
  with c have b: "resolvedBaseUrl (createCodaClient \<lparr>apiKey = Some (js ''k''), baseUrl = Some []\<rparr>)
       = API_BASE_URL" by blast
  from k a f b show ?thesis by (simp only: simp_thms)
qed

section \<open>Properties of the response classification\<close>

text \<open>
  C8: a response with status 204 yields \<open>undefined\<close> whatever its body is, also a body
  that does not parse; none of the earlier tests of the classification (429, 401 or 403,
  not ok, 202) applies to it; and a client with a key returns \<open>undefined\<close> from
  \<open>request\<close>.
\<close>

theorem no_content_returns_undefined:
  assumes "status response = 204"
  shows "receive response = Inr Undefined
    \<and> receive (response\<lparr>body_text := t, body_json := j\<rparr>) = Inr Undefined
    \<and> status response \<noteq> 429 \<and> status response \<noteq> 401 \<and> status response \<noteq> 403
    \<and> ok response \<and> status response \<noteq> 202
    \<and> (\<forall>h. getAuthHeaders this = Inr h \<longrightarrow>
          snd (request this (\<lambda>_. Inr response) endpoint options) = Inr Undefined)"
  using assms by (auto simp: receive_def ok_def request_def Let_def)

theorem no_content_returns_undefined_witness:
  "status \<lparr>status = 204, resp_headers = Map.empty, body_text = js ''not json'',
           body_json = Inl (js ''Unexpected token'')\<rparr> = 204
   \<and> receive \<lparr>status = 204, resp_headers = Map.empty, body_text = js ''not json'',
           body_json = Inl (js ''Unexpected token'')\<rparr> = Inr Undefined"
  using no_content_returns_undefined[of "\<lparr>status = 204, resp_headers = Map.empty, body_text = js ''not json'',
           body_json = Inl (js ''Unexpected token'')\<rparr>"]
  by simp

text \<open>
  What holds of status 429: it is the only status that yields a \<open>RateLimitError\<close>; the
  error carries \<open>parseInt\<close> of the \<open>Retry-After\<close> header, and 60 when the header is
  missing or empty.
\<close>

lemma receive_rate_limit_iff:
  "fails_with instanceof_RateLimitError (receive response) \<longleftrightarrow> status response = 429"
  by (auto simp: receive_def fails_with_def response_json_def Let_def split: sum.splits)

lemma receive_429:
  "status response = 429 \<Longrightarrow>
   receive response =
     Inl (RateLimitError (js ''Rate limit exceeded'')
            (case headers_get (resp_headers response) (js ''Retry-After'') of
               None \<Rightarrow> Integer 60
             | Some s \<Rightarrow> if s = [] then Integer 60 else parseInt10 s))"
  by (auto simp: receive_def Let_def split: option.splits)

lemma parseInt10_30: "parseInt10 (js ''30'') = Integer 30"
  by (simp add: js_def parseInt10_def white_space_def is_digit_def Let_def digits_value_def)

text \<open>
  C5 fails on the code where the header does not parse: \<open>Retry-After\<close> may be an HTTP
  date, \<open>parseInt\<close> of it is \<open>NaN\<close>, and the error carries \<open>NaN\<close>, not 60.
\<close>

theorem retry_after_http_date_is_NaN:
  "receive \<lparr>status = 429,
            resp_headers = [js ''retry-after'' \<mapsto> js ''Wed, 21 Oct 2015 07:28:00 GMT''],
            body_text = [], body_json = Inl []\<rparr>
   = Inl (RateLimitError (js ''Rate limit exceeded'') NaN)"
  by (simp add: receive_def headers_get_def ascii_lower_def js_def parseInt10_def
      white_space_def is_digit_def Let_def)

section \<open>Properties of the query-string builder\<close>

lemma append_all: "foldl (\<lambda>q x. usp_append q k (String x)) query vs
     = query @ map (\<lambda>x. (usv k, usv (String x))) vs"
  by (induction vs arbitrary: query) (simp_all add: usp_append_def)

lemma add_param_fresh:
  assumes "usv (fst kv) \<notin> fst ` set query"
  shows "add_param query kv = query @ stored (spec_pairs_of kv)"
proof (cases kv)
  case (Pair k v)
  with assms show ?thesis
    by (cases v) (simp_all add: add_param_def usp_set_def stored_def append_all comp_def)
qed

lemma names_stored_spec: "fst ` set (stored (spec_pairs_of kv)) \<subseteq> {usv (fst kv)}"
proof (cases kv)
  case (Pair k v)
  then show ?thesis by (cases v) (auto simp: stored_def)
qed

lemma foldl_add_param:
  assumes "distinct (map (\<lambda>kv. usv (fst kv)) ps)"
    and "fst ` set query \<inter> (\<lambda>kv. usv (fst kv)) ` set ps = {}"
  shows "foldl add_param query ps = query @ stored (spec_pairs ps)"
  using assms
proof (induction ps arbitrary: query)
  case Nil
  then show ?case by (simp add: spec_pairs_def stored_def)
next
  case (Cons kv ps)
  have fresh: "usv (fst kv) \<notin> fst ` set query" using Cons.prems(2) by auto
  have step: "add_param query kv = query @ stored (spec_pairs_of kv)"
    by (rule add_param_fresh[OF fresh])
  have d: "distinct (map (\<lambda>kv. usv (fst kv)) ps)" using Cons.prems(1) by simp
  have new: "usv (fst kv) \<notin> (\<lambda>kv. usv (fst kv)) ` set ps" using Cons.prems(1) by auto
  have old: "fst ` set query \<inter> (\<lambda>kv. usv (fst kv)) ` set ps = {}"
    using Cons.prems(2) by auto
  have "fst ` set (stored (spec_pairs_of kv)) \<inter> (\<lambda>kv. usv (fst kv)) ` set ps = {}"
  proof (rule ccontr)
    assume "fst ` set (stored (spec_pairs_of kv)) \<inter> (\<lambda>kv. usv (fst kv)) ` set ps \<noteq> {}"
    then obtain n where n1: "n \<in> fst ` set (stored (spec_pairs_of kv))"
      and n2: "n \<in> (\<lambda>kv. usv (fst kv)) ` set ps" by blast
    from n1 names_stored_spec[of kv] have "n = usv (fst kv)" by blast
    with n2 new show False by simp
  qed
  with old have "fst ` set (query @ stored (spec_pairs_of kv))
                   \<inter> (\<lambda>kv. usv (fst kv)) ` set ps = {}"
    by (simp add: image_Un Int_Un_distrib2)
  from Cons.IH[OF d this] step show ?case
    by (simp add: spec_pairs_def stored_def)
qed

lemma join_nonempty: "xs \<noteq> [] \<Longrightarrow> hd xs \<noteq> [] \<Longrightarrow> join sep xs \<noteq> []"
  by (induction sep xs rule: join.induct) auto

lemma usp_toString_empty_iff: "usp_toString query = [] \<longleftrightarrow> query = []"
proof
  assume e: "usp_toString query = []"
  show "query = []"
  proof (rule ccontr)
    assume "query \<noteq> []"
    then obtain n v rest where q: "query = (n, v) # rest" by (cases query) auto
    have "join (js ''&'') (map (\<lambda>(n, v). form_encode n @ js ''='' @ form_encode v) query) \<noteq> []"
      by (rule join_nonempty) (simp_all add: q js_def)
    with e show False by (simp add: usp_toString_def)
  qed
next
  assume "query = []" then show "usp_toString query = []" by (simp add: usp_toString_def)
qed

lemma stored_empty_iff: "stored kvs = [] \<longleftrightarrow> kvs = []"
  by (simp add: stored_def)

lemma well_formed_usv: "well_formed s \<Longrightarrow> usv s = s"
proof (induction s rule: well_formed.induct)
  case 1
  show ?case by simp
next
  case (2 c cs)
  show ?case
  proof (cases "is_high c")
    case True
    with "2.prems" obtain d ds where cs: "cs = d # ds" and d: "is_low d" and ds: "well_formed ds"
      by (cases cs) simp_all
    from "2.IH"(1)[OF True cs ds] have "usv ds = ds" .
    with True cs d show ?thesis by simp
  next
    case False
    with "2.prems" have nl: "\<not> is_low c" and w: "well_formed cs" by simp_all
    from "2.IH"(2)[OF False w] have "usv cs = cs" .
    with False nl show ?thesis by simp
  qed
qed

lemma well_formed_keys_distinct:
  assumes "distinct (map fst ps)" and "\<forall>k \<in> set (map fst ps). well_formed k"
  shows "distinct (map (\<lambda>kv. usv (fst kv)) ps)"
proof -
  have "map (\<lambda>kv. usv (fst kv)) ps = map fst ps"
    using assms(2) by (induction ps) (simp_all add: well_formed_usv)
  then show ?thesis using assms(1) by (simp only:)
qed

text \<open>
  C3: for a mapping whose keys stay distinct as \<open>URLSearchParams\<close> stores them (distinct
  keys free of lone surrogates always do), the query string is empty when the parameter
  set of the specification is empty, and otherwise \<open>?\<close> followed by the serialisation
  of exactly that set: nothing for an absent or null value, one pair for each element
  of a sequence, the stringified value otherwise.
\<close>

theorem buildQueryString_spec:
  assumes "distinct (map (\<lambda>kv. usv (fst kv)) ps)"
  shows "buildQueryString ps =
           (if spec_pairs ps = [] then []
            else js ''?'' @ usp_toString (stored (spec_pairs ps)))
       \<and> (buildQueryString ps = [] \<longleftrightarrow> spec_pairs ps = [])
       \<and> (spec_pairs ps \<noteq> [] \<longrightarrow> hd (buildQueryString ps) = of_char CHR ''?'')"
proof -
  have q: "foldl add_param [] ps = stored (spec_pairs ps)"
    using foldl_add_param[OF assms, of "[]"] by simp
  show ?thesis
    by (simp add: buildQueryString_def q Let_def usp_toString_empty_iff stored_empty_iff js_def)
qed

theorem buildQueryString_spec_witness:
  "distinct (map (\<lambda>kv. usv (fst kv))
       [(js ''tags'', Arr [Str (js ''a''), Str (js ''b'')]), (js ''pageToken'', Undefined),
        (js ''limit'', Num (Integer 20))])
   \<and> buildQueryString
       [(js ''tags'', Arr [Str (js ''a''), Str (js ''b'')]), (js ''pageToken'', Undefined),
        (js ''limit'', Num (Integer 20))] = js ''?tags=a&tags=b&limit=20''"
proof -
  let ?ps = "[(js ''tags'', Arr [Str (js ''a''), Str (js ''b'')]), (js ''pageToken'', Undefined),
        (js ''limit'', Num (Integer 20))]"
  have d: "distinct (map (\<lambda>kv. usv (fst kv)) ?ps)"
    by code_simp
  have ne: "spec_pairs ?ps \<noteq> []"
    by (simp add: spec_pairs_def)
  have q: "usp_toString (stored (spec_pairs ?ps)) = js ''tags=a&tags=b&limit=20''"
    by code_simp
  from buildQueryString_spec[OF d, THEN conjunct1] ne
  have "buildQueryString ?ps = js ''?'' @ usp_toString (stored (spec_pairs ?ps))"
    by (simp only: if_False)
  then have b: "buildQueryString ?ps = js ''?'' @ js ''tags=a&tags=b&limit=20''"
    by (simp only: q)
  have j: "js ''?'' @ js ''tags=a&tags=b&limit=20'' = js ''?tags=a&tags=b&limit=20''"
    by (simp add: js_def)
  from d b j show ?thesis by (simp only: simp_thms)
qed

section \<open>Properties of path building\<close>

subsection \<open>Encoded identifiers\<close>

lemma hex_digit_safe: "hex_digit n \<in> set upper_hex"
proof -
  have "n mod 16 < length upper_hex" by (simp add: upper_hex_def js_def)
  then show ?thesis unfolding hex_digit_def by (rule nth_mem)
qed

lemma pct_safe: "set (pct b) \<subseteq> safe_units"
  using hex_digit_safe by (auto simp: pct_def safe_units_def)

lemma pcts_safe: "set (concat (map pct bs)) \<subseteq> safe_units"
  using pct_safe by auto

lemma after_Inr: "after p r = Inr s \<longleftrightarrow> (\<exists>t. r = Inr t \<and> s = p @ t)"
  by (cases r) (auto simp: after_def)

lemma after_Inl: "after p r = Inl e \<longleftrightarrow> r = Inl e"
  by (cases r) (auto simp: after_def)

lemma encode_safe: "encodeURIComponent x = Inr e \<Longrightarrow> set e \<subseteq> safe_units"
proof (induction x arbitrary: e rule: encodeURIComponent.induct)
  case 1
  then show ?case by simp
next
  case (2 c cs)
  show ?case
  proof (cases "c \<in> set uriUnescaped")
    case True
    with "2.prems" obtain t where t: "encodeURIComponent cs = Inr t" and e: "e = [c] @ t"
      by (auto simp: after_Inr)
    from "2.IH"(1)[OF True t] True e show ?thesis by (auto simp: safe_units_def)
  next
    case nu: False
    show ?thesis
    proof (cases "is_low c")
      case True
      with nu "2.prems" show ?thesis by simp
    next
      case nl: False
      show ?thesis
      proof (cases "is_high c")
        case False
        with nu nl "2.prems" obtain t where t: "encodeURIComponent cs = Inr t"
          and e: "e = concat (map pct (utf8 (unat c))) @ t"
          by (auto simp: after_Inr)
        from "2.IH"(2)[OF nu nl False t] e pcts_safe[of "utf8 (unat c)"] show ?thesis by auto
      next
        case h: True
        with nu nl "2.prems" obtain d ds where cs: "cs = d # ds" and ld: "is_low d"
          by (cases cs) (auto split: if_splits)
        with nu nl h "2.prems" obtain t where t: "encodeURIComponent ds = Inr t"
          and e: "e = concat (map pct (utf8 (pair_cp c d))) @ t"
          by (auto simp: after_Inr)
        have hh: "\<not> \<not> is_high c" using h by simp
        from "2.IH"(3)[OF nu nl hh cs ld t] e pcts_safe[of "utf8 (pair_cp c d)"]
        show ?thesis by auto
      qed
    qed
  qed
qed

lemma reserved_not_safe:
  "of_char CHR ''/'' \<notin> safe_units" "of_char CHR ''?'' \<notin> safe_units"
  "of_char CHR '' '' \<notin> safe_units"
  by (simp_all add: safe_units_def uriUnescaped_def upper_hex_def js_def)

lemma unescaped_not_surrogate:
  "c \<in> set uriUnescaped \<Longrightarrow> \<not> is_high c \<and> \<not> is_low c"
  by (auto simp: uriUnescaped_def js_def is_high_def is_low_def)

lemma high_not_low: "is_high c \<Longrightarrow> \<not> is_low c"
  by (simp add: is_high_def is_low_def word_le_nat_alt)

lemma encode_fails_iff:
  "encodeURIComponent x = Inl e \<longleftrightarrow> \<not> well_formed x \<and> e = uri_malformed"
proof (induction x rule: encodeURIComponent.induct)
  case 1
  show ?case by simp
next
  case (2 c cs)
  show ?case
  proof (cases "c \<in> set uriUnescaped")
    case True
    with "2.IH"(1)[OF True] unescaped_not_surrogate[OF True] show ?thesis
      by (simp add: after_Inl)
  next
    case nu: False
    show ?thesis
    proof (cases "is_low c")
      case True
      with nu show ?thesis by (auto simp: high_not_low)
    next
      case nl: False
      show ?thesis
      proof (cases "is_high c")
        case False
        with "2.IH"(2)[OF nu nl False] nu nl show ?thesis
          by (simp add: after_Inl)
      next
        case h: True
        show ?thesis
        proof (cases cs)
          case Nil
          with nu nl h show ?thesis by auto
        next
          case (Cons d ds)
          show ?thesis
          proof (cases "is_low d")
            case True
            have hh: "\<not> \<not> is_high c" using h by simp
            from "2.IH"(3)[OF nu nl hh Cons True] nu nl h Cons True show ?thesis
              by (simp add: after_Inl)
          next
            case False
            with nu nl h Cons show ?thesis by auto
          qed
        qed
      qed
    qed
  qed
qed

lemma encode_total:
  "encodeURIComponent x = (if well_formed x then Inr (encoded x) else Inl uri_malformed)"
proof (cases "encodeURIComponent x")
  case (Inl e)
  with encode_fails_iff[of x e] show ?thesis by simp
next
  case (Inr r)
  have "well_formed x"
  proof (rule ccontr)
    assume "\<not> well_formed x"
    with encode_fails_iff[of x uri_malformed] Inr show False by simp
  qed
  with Inr show ?thesis by (simp add: encoded_def)
qed

lemma encoded_safe: "set (encoded x) \<subseteq> safe_units"
proof (cases "encodeURIComponent x")
  case (Inl e)
  then show ?thesis by (simp add: encoded_def)
next
  case (Inr e)
  with encode_safe[OF Inr] show ?thesis by (simp add: encoded_def)
qed

lemma encoded_free:
  "of_char CHR ''/'' \<notin> set (encoded x)" "of_char CHR ''?'' \<notin> set (encoded x)"
  "of_char CHR '' '' \<notin> set (encoded x)"
  using encoded_safe[of x] reserved_not_safe by blast+

lemma well_formed_append:
  "well_formed xs \<Longrightarrow> well_formed (xs @ ys) = well_formed ys"
proof (induction xs rule: well_formed.induct)
  case 1
  show ?case by simp
next
  case (2 c cs)
  show ?case
  proof (cases "is_high c")
    case True
    with "2.prems" obtain d ds where cs: "cs = d # ds" and d: "is_low d" and ds: "well_formed ds"
      by (cases cs) simp_all
    from "2.IH"(1)[OF True cs ds] True cs d show ?thesis by simp
  next
    case False
    with "2.prems" have nl: "\<not> is_low c" and w: "well_formed cs" by simp_all
    from "2.IH"(2)[OF False w] False nl show ?thesis by simp
  qed
qed

lemma encoded_Nil [simp]: "encoded [] = []"
  by (simp add: encoded_def)

lemma encode_value: "well_formed x \<Longrightarrow> \<exists>r. encodeURIComponent x = Inr r"
  by (simp add: encode_total)

lemma encoded_Cons_plain:
  assumes "\<not> is_high c" and "\<not> is_low c" and "well_formed cs"
  shows "encoded (c # cs) = encoded [c] @ encoded cs"
proof -
  from encode_value[OF assms(3)] obtain r where r: "encodeURIComponent cs = Inr r" ..
  show ?thesis using assms(1,2) by (simp add: encoded_def r after_def)
qed

lemma encoded_Cons_pair:
  assumes "is_high c" and "is_low d" and "well_formed ds"
  shows "encoded (c # d # ds) = concat (map pct (utf8 (pair_cp c d))) @ encoded ds"
proof -
  from encode_value[OF assms(3)] obtain r where r: "encodeURIComponent ds = Inr r" ..
  have nu: "c \<notin> set uriUnescaped" using assms(1) unescaped_not_surrogate by blast
  have nl: "\<not> is_low c" using assms(1) by (rule high_not_low)
  show ?thesis using assms(1,2) nu nl by (simp add: encoded_def r after_def)
qed

lemma encoded_append:
  "well_formed xs \<Longrightarrow> well_formed ys \<Longrightarrow> encoded (xs @ ys) = encoded xs @ encoded ys"
proof (induction xs rule: well_formed.induct)
  case 1
  show ?case by simp
next
  case (2 c cs)
  show ?case
  proof (cases "is_high c")
    case True
    with "2.prems" obtain d ds where cs: "cs = d # ds" and d: "is_low d" and ds: "well_formed ds"
      by (cases cs) simp_all
    have w: "well_formed (ds @ ys)" using ds "2.prems"(2) by (simp add: well_formed_append)
    have "encoded (c # d # (ds @ ys))
            = concat (map pct (utf8 (pair_cp c d))) @ encoded (ds @ ys)"
      using True d w by (rule encoded_Cons_pair)
    moreover have "encoded (c # d # ds)
            = concat (map pct (utf8 (pair_cp c d))) @ encoded ds"
      using True d ds by (rule encoded_Cons_pair)
    ultimately show ?thesis using "2.IH"(1)[OF True cs ds "2.prems"(2)] cs by simp
  next
    case False
    with "2.prems" have nl: "\<not> is_low c" and w: "well_formed cs" by simp_all
    have w': "well_formed (cs @ ys)" using w "2.prems"(2) by (simp add: well_formed_append)
    have "encoded (c # (cs @ ys)) = encoded [c] @ encoded (cs @ ys)"
      using False nl w' by (rule encoded_Cons_plain)
    moreover have "encoded (c # cs) = encoded [c] @ encoded cs"
      using False nl w by (rule encoded_Cons_plain)
    ultimately show ?thesis using "2.IH"(2)[OF False w "2.prems"(2)] by simp
  qed
qed

lemma encoded_reserved:
  "encoded [of_char CHR ''/''] = js ''%2F''"
  "encoded [of_char CHR ''?''] = js ''%3F''"
  "encoded [of_char CHR '' ''] = js ''%20''"
  by (simp_all add: encoded_def uriUnescaped_def js_def is_low_def is_high_def after_def
      utf8_def pct_def hex_digit_def upper_hex_def)

subsection \<open>Templates and outbound calls\<close>

lemma template_total:
  "template ps =
     (if list_all well_formed (interpolated ps) then Inr (concat (map render ps))
      else Inl uri_malformed)"
  by (induction ps rule: template.induct) (simp_all add: after_def encode_total)

lemma send_unfold:
  "send this net ps opts =
     (if list_all well_formed (interpolated ps)
      then request this net (concat (map render ps)) opts
      else ([], Inl uri_malformed))"
  by (simp add: send_def template_total)

lemma fst_settle [simp]: "fst (settle f r) = fst r"
  by (simp add: settle_def)

lemma fst_paginate [simp]: "fst (paginate r) = fst r"
  by (simp add: paginate_def split: sum.splits)

lemma fst_discard [simp]: "fst (discard r) = fst r"
  by (simp add: discard_def split: sum.splits)

lemma fst_request:
  "getAuthHeaders this = Inr h \<Longrightarrow>
   fst (request this net ep opts) =
     [\<lparr>url = resolvedBaseUrl this @ ep, call_method = init_method opts,
       call_body = init_body opts,
       call_headers = h ++ (case init_headers opts of None \<Rightarrow> Map.empty | Some g \<Rightarrow> g)\<rparr>]"
  by (simp add: request_def Let_def split: sum.splits)

lemma path_of_Nil [simp]: "path_of [] = []"
  by (simp add: path_of_def)

lemma path_of_Cons [simp]:
  "path_of (c # cs) = (if c = of_char CHR ''?'' then [] else c # path_of cs)"
  by (simp add: path_of_def)

lemma path_of_encoded [simp]: "path_of (encoded x @ ys) = encoded x @ path_of ys"
proof -
  have "\<And>c. c \<in> set (encoded x) \<Longrightarrow> c \<noteq> of_char CHR ''?''"
    using encoded_free(2)[of x] by blast
  then show ?thesis unfolding path_of_def by (rule takeWhile_append2)
qed

lemma path_of_encoded' [simp]: "path_of (encoded x) = encoded x"
  using path_of_encoded[of x "[]"] by simp

lemma path_of_buildQueryString [simp]: "path_of (buildQueryString ps) = []"
  by (simp add: buildQueryString_def Let_def js_def)

lemma split_on_append:
  "d \<notin> set xs \<Longrightarrow> split_on d (xs @ ys) = foldr push xs (split_on d ys)"
  by (induction xs) auto

lemma foldr_push_Cons [simp]: "foldr push xs (s # ss) = (xs @ s) # ss"
  by (induction xs) auto

lemma slash_47: "(of_char CHR ''/'' :: 16 word) = 47"
  by simp

lemma split_on_encoded [simp]:
  "split_on 47 (encoded x @ ys) = foldr push (encoded x) (split_on 47 ys)"
  using encoded_free(1)[of x] unfolding slash_47 by (rule split_on_append)

lemma split_on_encoded' [simp]: "split_on 47 (encoded x) = [encoded x]"
  using split_on_encoded[of x "[]"] by simp

lemmas wrapped_defs =
  whoami_def listDocs_def getDoc_def createDoc_def deleteDoc_def
  listPages_def getPage_def createPage_def updatePage_def listTables_def getTable_def
  listColumns_def getColumn_def listRows_def getRow_def upsertRows_def updateRow_def
  deleteRow_def deleteRows_def pushButton_def listFormulas_def getFormula_def
  listControls_def getControl_def listAutomations_def triggerAutomation_def
  getAclMetadata_def listPermissions_def addPermission_def deletePermission_def
  getAclSettings_def updateAclSettings_def publishDoc_def
  unpublishDoc_def resolveBrowserLink_def getMutationStatus_def

lemma fst_testConnection: "fst (testConnection this net) = fst (whoami this net)"
  by (simp add: testConnection_def Let_def split: sum.splits)

lemma fst_listCategories:
  "fst (listCategories this net) = fst (send this net [Lit (js ''/categories'')] no_options)"
  by (simp add: listCategories_def Let_def split: sum.splits)

lemma invoke_calls:
  assumes "getAuthHeaders this = Inr h" and "list_all well_formed (identifiers op)"
  shows "\<exists>call ep. fst (invoke this net op) = [call]
           \<and> url call = resolvedBaseUrl this @ ep
           \<and> path_segments ep = [] # map segment (route op)"
  using assms(2)
  by (cases op)
     (simp_all add: wrapped_defs fst_testConnection fst_listCategories send_unfold
        fst_request[OF assms(1)] identifiers_def Let_def path_segments_def js_def)

lemma invoke_malformed:
  assumes "\<not> list_all well_formed (identifiers op)"
  shows "invoke this net op = ([], Inl uri_malformed)"
  using assms
  by (cases op)
     (simp_all add: wrapped_defs listCategories_def testConnection_def send_unfold
        identifiers_def Let_def settle_def paginate_def discard_def
        del: list.pred_inject(2))

text \<open>
  C4: for a client with a key and an invocation whose identifiers are well formed, the
  one outbound call goes to the base URL followed by an endpoint whose path segments are
  exactly those of the route of the operation, each identifier standing in its own
  segment as \<open>encodeURIComponent\<close> wrote it, free of \<open>/\<close>, \<open>?\<close> and space; the
  number of segments is the length of the route, whatever the identifiers contain. An
  identifier with a lone surrogate makes the operation fail with the URIError before any
  call. Every \<open>/\<close>, \<open>?\<close> and space of an identifier is written \<open>%2F\<close>, \<open>%3F\<close>,
  \<open>%20\<close>.
\<close>

theorem identifiers_encoded_as_single_segments:
  assumes "getAuthHeaders this = Inr h"
  shows "(list_all well_formed (identifiers op) \<longrightarrow>
           (\<exists>call ep. fst (invoke this net op) = [call]
              \<and> url call = resolvedBaseUrl this @ ep
              \<and> path_segments ep = [] # map segment (route op)
              \<and> length (path_segments ep) = Suc (length (route op))
              \<and> (\<forall>x \<in> set (identifiers op).
                    encodeURIComponent x = Inr (encoded x)
                    \<and> encoded x \<in> set (path_segments ep)
                    \<and> of_char CHR ''/'' \<notin> set (encoded x)
                    \<and> of_char CHR ''?'' \<notin> set (encoded x)
                    \<and> of_char CHR '' '' \<notin> set (encoded x))))
       \<and> (\<not> list_all well_formed (identifiers op) \<longrightarrow>
            invoke this net op = ([], Inl uri_malformed))
       \<and> (well_formed xs \<and> well_formed ys \<longrightarrow>
            encoded (xs @ of_char CHR ''/'' # ys) = encoded xs @ js ''%2F'' @ encoded ys
            \<and> encoded (xs @ of_char CHR ''?'' # ys) = encoded xs @ js ''%3F'' @ encoded ys
            \<and> encoded (xs @ of_char CHR '' '' # ys) = encoded xs @ js ''%20'' @ encoded ys)"
proof (intro conjI impI)
  assume wf: "list_all well_formed (identifiers op)"
  from invoke_calls[OF assms wf, of net] obtain call ep where
    c: "fst (invoke this net op) = [call]" and u: "url call = resolvedBaseUrl this @ ep"
    and p: "path_segments ep = [] # map segment (route op)" by blast
  have ids: "encodeURIComponent x = Inr (encoded x) \<and> encoded x \<in> set (path_segments ep)
        \<and> of_char CHR ''/'' \<notin> set (encoded x) \<and> of_char CHR ''?'' \<notin> set (encoded x)
        \<and> of_char CHR '' '' \<notin> set (encoded x)"
    if x: "x \<in> set (identifiers op)" for x
  proof -
    from wf x have "well_formed x" by (simp add: list_all_iff)
    then have e: "encodeURIComponent x = Inr (encoded x)" by (simp add: encode_total)
    have "x \<in> set (identifiers_of sl) \<Longrightarrow> encoded x \<in> set (map segment sl)" for sl
      by (induction sl rule: identifiers_of.induct) auto
    with x have "encoded x \<in> set (map segment (route op))" by (simp add: identifiers_def)
    with p e encoded_free[of x] show ?thesis by simp
  qed
  show "\<exists>call ep. fst (invoke this net op) = [call]
              \<and> url call = resolvedBaseUrl this @ ep
              \<and> path_segments ep = [] # map segment (route op)
              \<and> length (path_segments ep) = Suc (length (route op))
              \<and> (\<forall>x \<in> set (identifiers op).
                    encodeURIComponent x = Inr (encoded x)
                    \<and> encoded x \<in> set (path_segments ep)
                    \<and> of_char CHR ''/'' \<notin> set (encoded x)
                    \<and> of_char CHR ''?'' \<notin> set (encoded x)
                    \<and> of_char CHR '' '' \<notin> set (encoded x))"
    using c u p ids by (intro exI[of _ call] exI[of _ ep]) simp
next
  assume "\<not> list_all well_formed (identifiers op)"
  then show "invoke this net op = ([], Inl uri_malformed)" by (rule invoke_malformed)
next
  assume w: "well_formed xs \<and> well_formed ys"
  have one: "well_formed [c]" "well_formed (c # ys)"
    if "\<not> is_high c" "\<not> is_low c" for c
    using that w by simp_all
  have r: "\<not> is_high (of_char CHR ''/'')" "\<not> is_low (of_char CHR ''/'')"
    "\<not> is_high (of_char CHR ''?'')" "\<not> is_low (of_char CHR ''?'')"
    "\<not> is_high (of_char CHR '' '')" "\<not> is_low (of_char CHR '' '')"
    by (simp_all add: is_high_def is_low_def)
  have split: "encoded (xs @ c # ys) = encoded xs @ encoded [c] @ encoded ys"
    if "\<not> is_high c" "\<not> is_low c" for c
  proof -
    have "encoded (xs @ c # ys) = encoded xs @ encoded (c # ys)"
      using w one(2)[OF that] by (simp add: encoded_append)
    also have "encoded (c # ys) = encoded ([c] @ ys)" by simp
    also have "\<dots> = encoded [c] @ encoded ys"
      using one(1)[OF that] w by (rule_tac encoded_append) simp_all
    finally show ?thesis .
  qed
  show "encoded (xs @ of_char CHR ''/'' # ys) = encoded xs @ js ''%2F'' @ encoded ys"
    using split[OF r(1,2)] by (simp only: encoded_reserved)
  show "encoded (xs @ of_char CHR ''?'' # ys) = encoded xs @ js ''%3F'' @ encoded ys"
    using split[OF r(3,4)] by (simp only: encoded_reserved)
  show "encoded (xs @ of_char CHR '' '' # ys) = encoded xs @ js ''%20'' @ encoded ys"
    using split[OF r(5,6)] by (simp only: encoded_reserved)
qed

lemma encoded_samples:
  "encoded (js ''a/b'') = js ''a%2Fb''"
  "encoded (js ''c?d'') = js ''c%3Fd''"
  "encoded (js ''e f'') = js ''e%20f''"
  by (simp_all add: encoded_def uriUnescaped_def js_def is_low_def is_high_def after_def
      utf8_def pct_def hex_digit_def upper_hex_def)

theorem identifiers_encoded_as_single_segments_witness:
  "list_all well_formed (identifiers (GetRow (js ''a/b'') (js ''c?d'') (js ''e f'') False))
   \<and> (\<exists>call ep.
        fst (invoke (createCodaClient \<lparr>apiKey = Some (js ''k''), baseUrl = None\<rparr>)
               (\<lambda>_. Inl (TypeError []))
               (GetRow (js ''a/b'') (js ''c?d'') (js ''e f'') False)) = [call]
        \<and> url call
            = resolvedBaseUrl (createCodaClient \<lparr>apiKey = Some (js ''k''), baseUrl = None\<rparr>) @ ep
        \<and> path_segments ep =
            [[], js ''docs'', js ''a%2Fb'', js ''tables'', js ''c%3Fd'', js ''rows'',
             js ''e%20f''])"
proof -
  let ?cl = "createCodaClient \<lparr>apiKey = Some (js ''k''), baseUrl = None\<rparr>"
  let ?op = "GetRow (js ''a/b'') (js ''c?d'') (js ''e f'') False"
  let ?net = "\<lambda>_ :: fetch_call. Inl (TypeError []) :: error + Response"
  have g: "getAuthHeaders ?cl =
      Inr [js ''Authorization'' \<mapsto> js ''Bearer '' @ js ''k'',
           js ''Content-Type'' \<mapsto> js ''application/json'']"
    by (simp add: getAuthHeaders_def js_def)
  have w: "list_all well_formed (identifiers ?op)"
    by (simp add: identifiers_def js_def is_high_def is_low_def)
  have s: "[] # map segment (route ?op) =
      [[], js ''docs'', js ''a%2Fb'', js ''tables'', js ''c%3Fd'', js ''rows'', js ''e%20f'']"
    by (simp add: encoded_samples)
  from identifiers_encoded_as_single_segments[OF g, of ?op ?net] w obtain call ep where
    "fst (invoke ?cl ?net ?op) = [call]" "url call = resolvedBaseUrl ?cl @ ep"
    "path_segments ep = [] # map segment (route ?op)"
    by blast
  with s have "fst (invoke ?cl ?net ?op) = [call] \<and> url call = resolvedBaseUrl ?cl @ ep
      \<and> path_segments ep =
         [[], js ''docs'', js ''a%2Fb'', js ''tables'', js ''c%3Fd'', js ''rows'', js ''e%20f'']"
    by (simp only: simp_thms)
  with w show ?thesis by blast
qed

section \<open>Properties of the authorization header\<close>

lemma request_no_key:
  "getAuthHeaders this = Inl e \<Longrightarrow> request this net ep opts = ([], Inl e)"
  by (simp add: request_def Let_def)

lemma getAuthHeaders_cases:
  "getAuthHeaders this =
     (if apiKey (credentials this) = None \<or> apiKey (credentials this) = Some []
      then Inl no_credentials
      else Inr [js ''Authorization'' \<mapsto> js ''Bearer '' @ the (apiKey (credentials this)),
                js ''Content-Type'' \<mapsto> js ''application/json''])"
  by (auto simp: getAuthHeaders_def split: option.splits)

lemma invoke_no_key:
  assumes "getAuthHeaders this = Inl e" and "list_all well_formed (identifiers op)"
    and "op \<noteq> TestConnection"
  shows "invoke this net op = ([], Inl e)"
  using assms(2,3)
  by (cases op)
     (simp_all add: wrapped_defs listCategories_def send_unfold identifiers_def Let_def
        settle_def paginate_def discard_def request_no_key[OF assms(1)]
        del: list.pred_inject(2))

lemma testConnection_no_key:
  assumes "getAuthHeaders this = Inl e"
  shows "testConnection this net = ([], Inr \<lparr>connected = False, message = error_message e\<rparr>)"
  by (simp add: testConnection_def whoami_def send_unfold request_no_key[OF assms] Let_def)

text \<open>
  C9, as the claim states it, fails: on a client with no \<open>apiKey\<close> the operation
  \<open>testConnection\<close> does not fail; it catches the \<open>AuthenticationError\<close> and returns
  \<open>connected = false\<close> with its message.
\<close>

theorem testConnection_without_key_does_not_fail:
  "invoke (createCodaClient \<lparr>apiKey = None, baseUrl = None\<rparr>) (\<lambda>_. Inl (TypeError []))
      TestConnection
   = ([], Inr (Connection \<lparr>connected = False,
        message = js ''No credentials provided. Include X-Coda-API-Key header.''\<rparr>))
   \<and> \<not> fails_with instanceof_AuthenticationError
        (snd (invoke (createCodaClient \<lparr>apiKey = None, baseUrl = None\<rparr>)
                (\<lambda>_. Inl (TypeError [])) TestConnection))"
proof -
  have g: "getAuthHeaders (createCodaClient \<lparr>apiKey = None, baseUrl = None\<rparr>) = Inl no_credentials"
    by (simp add: getAuthHeaders_def createCodaClient_def)
  show ?thesis
    by (simp add: testConnection_no_key[OF g] settle_def no_credentials_def fails_with_def)
qed

text \<open>
  C9, amended: on a client whose \<open>apiKey\<close> is absent or empty, the header builder and
  \<open>request\<close> fail with the \<open>AuthenticationError\<close> before any outbound call, so no
  operation issues a call; every operation other than \<open>testConnection\<close> fails, with
  that \<open>AuthenticationError\<close> when its identifiers are well formed (with the URIError
  of the encoding otherwise), and \<open>testConnection\<close> returns \<open>connected = false\<close> with
  the message of the \<open>AuthenticationError\<close>. With a non-empty \<open>apiKey\<close> the headers are
  \<open>Authorization: Bearer <apiKey>\<close> and \<open>Content-Type: application/json\<close>.
\<close>

theorem no_key_no_outbound_call:
  "(apiKey (credentials this) = None \<or> apiKey (credentials this) = Some [] \<longrightarrow>
      getAuthHeaders this = Inl no_credentials
      \<and> request this net endpoint options = ([], Inl no_credentials)
      \<and> fst (invoke this net op) = []
      \<and> (op \<noteq> TestConnection \<longrightarrow>
            snd (invoke this net op) =
              Inl (if list_all well_formed (identifiers op) then no_credentials
                   else uri_malformed))
      \<and> invoke this net TestConnection =
          ([], Inr (Connection \<lparr>connected = False,
                 message = js ''No credentials provided. Include X-Coda-API-Key header.''\<rparr>)))
   \<and> (apiKey (credentials this) = Some k \<and> k \<noteq> [] \<longrightarrow>
        getAuthHeaders this =
          Inr [js ''Authorization'' \<mapsto> js ''Bearer '' @ k,
               js ''Content-Type'' \<mapsto> js ''application/json''])"
proof (intro conjI impI)
  assume nk: "apiKey (credentials this) = None \<or> apiKey (credentials this) = Some []"
  then show g: "getAuthHeaders this = Inl no_credentials"
    by (simp add: getAuthHeaders_cases)
  show "request this net endpoint options = ([], Inl no_credentials)"
    by (rule request_no_key[OF g])
  show tc: "invoke this net TestConnection =
          ([], Inr (Connection \<lparr>connected = False,
                 message = js ''No credentials provided. Include X-Coda-API-Key header.''\<rparr>))"
    by (simp add: testConnection_no_key[OF g] settle_def no_credentials_def)
  show "fst (invoke this net op) = []"
  proof (cases "op = TestConnection")
    case True
    with tc show ?thesis by simp
  next
    case False
    show ?thesis
    proof (cases "list_all well_formed (identifiers op)")
      case True
      from invoke_no_key[OF g True False] show ?thesis by simp
    next
      case False
      from invoke_malformed[OF False] show ?thesis by simp
    qed
  qed
  {
    assume ntc: "op \<noteq> TestConnection"
    show "snd (invoke this net op) =
              Inl (if list_all well_formed (identifiers op) then no_credentials
                   else uri_malformed)"
    proof (cases "list_all well_formed (identifiers op)")
      case True
      from invoke_no_key[OF g True ntc] True show ?thesis by simp
    next
      case False
      from invoke_malformed[OF False] False show ?thesis by simp
    qed
  }
next
  assume "apiKey (credentials this) = Some k \<and> k \<noteq> []"
  then show "getAuthHeaders this =
          Inr [js ''Authorization'' \<mapsto> js ''Bearer '' @ k,
               js ''Content-Type'' \<mapsto> js ''application/json'']"
    by (simp add: getAuthHeaders_def)
qed

theorem no_key_no_outbound_call_witness:
  "apiKey (credentials (createCodaClient \<lparr>apiKey = None, baseUrl = None\<rparr>)) = None
   \<and> invoke (createCodaClient \<lparr>apiKey = None, baseUrl = None\<rparr>) (\<lambda>_. Inl (TypeError []))
        (GetDoc (js ''d'')) = ([], Inl no_credentials)"
proof -
  let ?cl = "createCodaClient \<lparr>apiKey = None, baseUrl = None\<rparr>"
  let ?net = "\<lambda>_ :: fetch_call. Inl (TypeError []) :: error + Response"
  have n: "apiKey (credentials ?cl) = None" by simp
  have w: "list_all well_formed (identifiers (GetDoc (js ''d'')))"
    by (simp add: identifiers_def js_def is_high_def is_low_def)
  from no_key_no_outbound_call[of ?cl ?net _ _ "GetDoc (js ''d'')"] n w
  have "fst (invoke ?cl ?net (GetDoc (js ''d''))) = []"
    and "snd (invoke ?cl ?net (GetDoc (js ''d''))) = Inl no_credentials"
    by simp_all
  with n show ?thesis by (simp add: prod_eq_iff)
qed

section \<open>Properties of the listing operations\<close>

lemma snd_request:
  "getAuthHeaders this = Inr h \<Longrightarrow>
   snd (request this (\<lambda>_. Inr response) ep opts) = receive response"
  by (simp add: request_def Let_def)

lemma receive_object:
  assumes "ok response" and "status response \<noteq> 204" and "body_json response = Inr v"
  shows "receive response = Inr v"
  using assms by (auto simp: receive_def ok_def response_json_def)

lemma paginated_object:
  "paginated (Obj kvs) =
     Inr \<lparr>items = field kvs (js ''items''),
          nextPageToken = field kvs (js ''nextPageToken''),
          nextPageLink = field kvs (js ''nextPageLink''),
          hasMore = truthy (field kvs (js ''nextPageToken''))\<rparr>"
  by (simp add: paginated_def)

lemma truthy_token:
  assumes "textual_token kvs"
  shows "truthy (field kvs (js ''nextPageToken'')) = has_token kvs"
proof (cases "map_of kvs (js ''nextPageToken'')")
  case None
  then show ?thesis by (simp add: field_def has_token_def)
next
  case (Some v)
  with assms show ?thesis
    by (cases v) (simp_all add: field_def has_token_def textual_token_def)
qed

lemma listing_result:
  assumes "is_listing op" and "getAuthHeaders this = Inr h"
    and "list_all well_formed (identifiers op)"
  shows "snd (invoke this (\<lambda>_. Inr response) op) =
           (case receive response of
              Inl e \<Rightarrow> Inl e
            | Inr v \<Rightarrow> (case paginated v of Inl e \<Rightarrow> Inl e | Inr p \<Rightarrow> Inr (Page p)))"
  using assms(1,3)
  by (cases op)
     (simp_all add: wrapped_defs send_unfold identifiers_def Let_def settle_def paginate_def
        snd_request[OF assms(2)] split: sum.splits del: list.pred_inject(2))

text \<open>
  C2: for each of the nine listing operations, on a client with a key, when the upstream
  answers with a successful status other than 204 and an object payload whose token is
  textual, the operation returns the page whose \<open>items\<close>, \<open>nextPageToken\<close> and
  \<open>nextPageLink\<close> are those of the payload, unchanged, and whose \<open>hasMore\<close> is true
  exactly when the payload has a non-empty \<open>nextPageToken\<close>; no other field of the
  payload is read.
\<close>

theorem listing_hasMore_iff_token:
  assumes "is_listing op" and "getAuthHeaders this = Inr h"
    and "list_all well_formed (identifiers op)"
    and "ok response" and "status response \<noteq> 204"
    and "body_json response = Inr (Obj kvs)" and "textual_token kvs"
  shows "snd (invoke this (\<lambda>_. Inr response) op) =
           Inr (Page \<lparr>items = field kvs (js ''items''),
                      nextPageToken = field kvs (js ''nextPageToken''),
                      nextPageLink = field kvs (js ''nextPageLink''),
                      hasMore = has_token kvs\<rparr>)"
  using listing_result[OF assms(1,2,3), of response] receive_object[OF assms(4,5,6)]
    truthy_token[OF assms(7)]
  by (simp add: paginated_object)

theorem listing_hasMore_iff_token_witness:
  "is_listing (ListDocs None)
   \<and> snd (invoke (createCodaClient \<lparr>apiKey = Some (js ''k''), baseUrl = None\<rparr>)
        (\<lambda>_. Inr \<lparr>status = 200, resp_headers = Map.empty, body_text = [],
               body_json = Inr (Obj [(js ''items'', Arr [Str (js ''b''), Str (js ''a'')]),
                                     (js ''nextPageToken'', Str (js ''t'')),
                                     (js ''hasMore'', Bool False)])\<rparr>)
        (ListDocs None))
     = Inr (Page \<lparr>items = Arr [Str (js ''b''), Str (js ''a'')],
                  nextPageToken = Str (js ''t''), nextPageLink = Undefined,
                  hasMore = True\<rparr>)"
proof -
  let ?cl = "createCodaClient \<lparr>apiKey = Some (js ''k''), baseUrl = None\<rparr>"
  let ?kvs = "[(js ''items'', Arr [Str (js ''b''), Str (js ''a'')]),
               (js ''nextPageToken'', Str (js ''t'')), (js ''hasMore'', Bool False)]"
  let ?r = "\<lparr>status = 200, resp_headers = Map.empty, body_text = [],
             body_json = Inr (Obj ?kvs)\<rparr>"
  have g: "getAuthHeaders ?cl =
      Inr [js ''Authorization'' \<mapsto> js ''Bearer '' @ js ''k'',
           js ''Content-Type'' \<mapsto> js ''application/json'']"
    by (simp add: getAuthHeaders_def js_def)
  have t: "textual_token ?kvs" by (simp add: textual_token_def js_def)
  have f: "field ?kvs (js ''items'') = Arr [Str (js ''b''), Str (js ''a'')]"
    "field ?kvs (js ''nextPageToken'') = Str (js ''t'')"
    "field ?kvs (js ''nextPageLink'') = Undefined"
    "has_token ?kvs = True"
    by (simp_all add: field_def has_token_def js_def)
  have "snd (invoke ?cl (\<lambda>_. Inr ?r) (ListDocs None)) =
      Inr (Page \<lparr>items = field ?kvs (js ''items''),
                 nextPageToken = field ?kvs (js ''nextPageToken''),
                 nextPageLink = field ?kvs (js ''nextPageLink''),
                 hasMore = has_token ?kvs\<rparr>)"
    by (rule listing_hasMore_iff_token[OF _ g]) (simp_all add: identifiers_def ok_def t)
  then show ?thesis by (simp only: f is_listing.simps simp_thms)
qed

section \<open>Properties of tenant isolation\<close>

lemma invoke_headers:
  assumes "getAuthHeaders this = Inr h"
  shows "\<forall>call \<in> set (fst (invoke this net op)). call_headers call = h"
  by (cases op)
     (simp_all add: wrapped_defs fst_testConnection fst_listCategories send_unfold Let_def
        fst_request[OF assms] no_options_def verb_def verb_body_def
        del: list.pred_inject(2))

lemma invoke_no_key_calls:
  assumes "getAuthHeaders this = Inl e"
  shows "fst (invoke this net op) = []"
  by (cases op)
     (simp_all add: wrapped_defs fst_testConnection fst_listCategories send_unfold Let_def
        request_no_key[OF assms] del: list.pred_inject(2))

lemma invoke_bearer:
  assumes "call \<in> set (fst (invoke this net op))"
  shows "\<exists>k. apiKey (credentials this) = Some k \<and> k \<noteq> []
           \<and> call_headers call (js ''Authorization'') = Some (js ''Bearer '' @ k)"
proof (cases "getAuthHeaders this")
  case (Inl e)
  with invoke_no_key_calls[OF Inl, of net op] assms show ?thesis by simp
next
  case (Inr h)
  from invoke_headers[OF Inr, of net op] assms have "call_headers call = h" by blast
  moreover from Inr obtain k where "apiKey (credentials this) = Some k" "k \<noteq> []"
    "h = [js ''Authorization'' \<mapsto> js ''Bearer '' @ k,
          js ''Content-Type'' \<mapsto> js ''application/json'']"
    by (auto simp: getAuthHeaders_def split: option.splits if_splits)
  ultimately show ?thesis by (simp add: js_def)
qed

lemma run_snoc: "run (evs @ [ev]) = step (run evs) ev"
  by (simp add: run_def)

lemma supplied_append: "supplied (evs @ evs') = supplied evs @ supplied evs'"
  by (induction evs rule: supplied.induct) simp_all

lemma fetch_served:
  "fetch req = Served c \<longleftrightarrow>
     pathname req = js ''/mcp'' \<and> req_method req = js ''POST''
     \<and> validateCredentials (parseTenantCredentials req) = Inr ()
     \<and> c = createCodaClient (parseTenantCredentials req)"
  using mcp_not_health
  by (auto simp: fetch_def createStatelessServer_def Let_def split: sum.splits)

lemma clients_run: "clients (run evs) = map createCodaClient (supplied evs)"
proof (induction evs rule: rev_induct)
  case Nil
  show ?case by (simp add: run_def)
next
  case (snoc ev evs)
  show ?case
  proof (cases ev)
    case (Construct creds)
    with snoc show ?thesis by (simp add: run_snoc supplied_append)
  next
    case (Inbound req)
    show ?thesis
    proof (cases "fetch req")
      case (Responded r)
      then have "\<not> (pathname req = js ''/mcp'' \<and> req_method req = js ''POST''
           \<and> validateCredentials (parseTenantCredentials req) = Inr ())"
        using fetch_served[of req "createCodaClient (parseTenantCredentials req)"] by auto
      with snoc Inbound Responded show ?thesis by (simp add: run_snoc supplied_append)
    next
      case (Served c)
      with fetch_served[of req c] snoc Inbound show ?thesis
        by (simp add: run_snoc supplied_append)
    qed
  next
    case (Invoke a op net)
    with snoc show ?thesis by (simp add: run_snoc supplied_append)
  qed
qed

lemma outbound_run:
  "\<forall>(a, call) \<in> set (outbound (run evs)).
     a < length (supplied evs)
     \<and> (\<exists>k. apiKey (supplied evs ! a) = Some k \<and> k \<noteq> []
           \<and> call_headers call (js ''Authorization'') = Some (js ''Bearer '' @ k))"
proof (induction evs rule: rev_induct)
  case Nil
  show ?case by (simp add: run_def)
next
  case (snoc ev evs)
  have mono: "a < length (supplied evs) \<Longrightarrow>
      a < length (supplied (evs @ [ev])) \<and> supplied (evs @ [ev]) ! a = supplied evs ! a" for a
    by (simp add: supplied_append nth_append)
  have old: "a < length (supplied (evs @ [ev]))
     \<and> (\<exists>k. apiKey (supplied (evs @ [ev]) ! a) = Some k \<and> k \<noteq> []
           \<and> call_headers call (js ''Authorization'') = Some (js ''Bearer '' @ k))"
    if "(a, call) \<in> set (outbound (run evs))" for a call
    using snoc that mono[of a] by fastforce
  show ?case
  proof (cases ev)
    case (Construct creds)
    then have "outbound (run (evs @ [ev])) = outbound (run evs)" by (simp add: run_snoc)
    with old show ?thesis by auto
  next
    case (Inbound req)
    then have "outbound (run (evs @ [ev])) = outbound (run evs)"
      by (simp add: run_snoc split: reply.splits)
    with old show ?thesis by auto
  next
    case (Invoke a op net)
    show ?thesis
    proof (cases "a < length (clients (run evs))")
      case False
      with Invoke have "outbound (run (evs @ [ev])) = outbound (run evs)"
        by (simp add: run_snoc)
      with old show ?thesis by auto
    next
      case True
      then have a: "a < length (supplied evs)" by (simp add: clients_run)
      have cl: "clients (run evs) ! a = createCodaClient (supplied evs ! a)"
        using a by (simp add: clients_run)
      have new: "a < length (supplied (evs @ [ev]))
         \<and> (\<exists>k. apiKey (supplied (evs @ [ev]) ! a) = Some k \<and> k \<noteq> []
           \<and> call_headers call (js ''Authorization'') = Some (js ''Bearer '' @ k))"
        if "call \<in> set (fst (invoke (clients (run evs) ! a) net op))" for call
        using invoke_bearer[OF that] mono[OF a] cl by simp
      have "set (outbound (run (evs @ [ev]))) =
          set (outbound (run evs)) \<union> Pair a ` set (fst (invoke (clients (run evs) ! a) net op))"
        using True Invoke by (simp add: run_snoc)
      with old new show ?thesis by auto
    qed
  qed
qed

text \<open>
  C1: in every run of the instance, whatever the order of constructions and invocations,
  an outbound call issued through a client carries \<open>Authorization: Bearer K\<close> for the
  key \<open>K\<close> that client was constructed with, and for no different key of any other
  client; the credentials a client holds are the ones it was constructed with.
\<close>

theorem outbound_call_carries_own_key:
  assumes "(a, call) \<in> set (outbound (run evs))"
  shows "a < length (supplied evs)
     \<and> credentials (clients (run evs) ! a) = supplied evs ! a
     \<and> (\<exists>k. apiKey (supplied evs ! a) = Some k
           \<and> call_headers call (js ''Authorization'') = Some (js ''Bearer '' @ k)
           \<and> (\<forall>b k'. b < length (supplied evs) \<and> apiKey (supplied evs ! b) = Some k'
                  \<and> k' \<noteq> k \<longrightarrow>
                  call_headers call (js ''Authorization'') \<noteq> Some (js ''Bearer '' @ k')))"
proof -
  from outbound_run[of evs] assms obtain k where a: "a < length (supplied evs)"
    and k: "apiKey (supplied evs ! a) = Some k"
    and hd: "call_headers call (js ''Authorization'') = Some (js ''Bearer '' @ k)"
    by fastforce
  have "credentials (clients (run evs) ! a) = supplied evs ! a"
    using a by (simp add: clients_run)
  with a k hd show ?thesis by auto
qed

theorem outbound_call_carries_own_key_witness:
  "\<exists>c1 c0.
     outbound (run
       [Construct \<lparr>apiKey = Some (js ''K1''), baseUrl = None\<rparr>,
        Inbound \<lparr>req_method = js ''POST'', pathname = js ''/mcp'',
                 req_headers = [js ''x-coda-api-key'' \<mapsto> js ''K2'']\<rparr>,
        Invoke 1 WhoAmI (\<lambda>_. Inl (TypeError [])),
        Invoke 0 WhoAmI (\<lambda>_. Inl (TypeError []))]) = [(1, c1), (0, c0)]
     \<and> call_headers c1 (js ''Authorization'') = Some (js ''Bearer K2'')
     \<and> call_headers c0 (js ''Authorization'') = Some (js ''Bearer K1'')"
proof -
  let ?A = "\<lparr>apiKey = Some (js ''K1''), baseUrl = None\<rparr>"
  let ?B = "\<lparr>apiKey = Some (js ''K2''), baseUrl = None\<rparr>"
  let ?req = "\<lparr>req_method = js ''POST'', pathname = js ''/mcp'',
                 req_headers = [js ''x-coda-api-key'' \<mapsto> js ''K2'']\<rparr>"
  let ?net = "\<lambda>_ :: fetch_call. Inl (TypeError []) :: error + Response"
  let ?evs = "[Construct ?A, Inbound ?req, Invoke 1 WhoAmI ?net, Invoke 0 WhoAmI ?net]"
  have p: "parseTenantCredentials ?req = ?B"
    by (simp add: parseTenantCredentials_def headers_get_def or_undefined_def truthy_str_def
        js_def ascii_lower_def)
  have v: "validateCredentials ?B = Inr ()"
    by (simp add: validateCredentials_def truthy_str_def js_def)
  have f: "fetch ?req = Served (createCodaClient ?B)"
    using p v mcp_not_health by (simp add: fetch_def createStatelessServer_def)
  have sup: "supplied ?evs = [?A, ?B]"
    using p v by simp
  have cA: "fst (whoami (createCodaClient ?A) ?net) =
      [\<lparr>url = API_BASE_URL @ js ''/whoami'', call_method = None, call_body = None,
        call_headers = [js ''Authorization'' \<mapsto> js ''Bearer '' @ js ''K1'',
                        js ''Content-Type'' \<mapsto> js ''application/json'']\<rparr>]"
    by (simp add: whoami_def send_unfold request_def getAuthHeaders_def createCodaClient_def
        no_options_def js_def)
  have cB: "fst (whoami (createCodaClient ?B) ?net) =
      [\<lparr>url = API_BASE_URL @ js ''/whoami'', call_method = None, call_body = None,
        call_headers = [js ''Authorization'' \<mapsto> js ''Bearer '' @ js ''K2'',
                        js ''Content-Type'' \<mapsto> js ''application/json'']\<rparr>]"
    by (simp add: whoami_def send_unfold request_def getAuthHeaders_def createCodaClient_def
        no_options_def js_def)
  obtain c1 c0 where out: "outbound (run ?evs) = [(1, c1), (0, c0)]"
    using f cA cB by (simp add: run_def)
  have m1: "(1, c1) \<in> set (outbound (run ?evs))" and m0: "(0, c0) \<in> set (outbound (run ?evs))"
    by (simp_all only: out list.set insert_iff simp_thms)
  from outbound_call_carries_own_key[OF m1] sup have h1: "call_headers c1 (js ''Authorization'') = Some (js ''Bearer K2'')"
    by (auto simp: js_def)
  from outbound_call_carries_own_key[OF m0] sup have h0: "call_headers c0 (js ''Authorization'') = Some (js ''Bearer K1'')"
    by (auto simp: js_def)
  from out h1 h0 show ?thesis by blast
qed

end
